theory Spec2Isabelle
  imports Main "HOL-Library.Word"
begin

section \<open>Errors and outcomes\<close>

text \<open>
  Go errors are values. Three shapes occur in the package: errors of the standard
  library and of the transport, of which only the text matters (\<open>Plain\<close>);
  \<open>net.AddrError{Err, Addr}\<close> as returned by \<open>net.SplitHostPort\<close>; and the
  errors built with \<open>errors.New(op).Err(cause).Msg(msg)\<close> of the Station-Manager
  errors package, kept as operation name, optional cause and message (the message is
  empty when \<open>Msg\<close> is not called).
\<close>

datatype error =
    Plain string
  | AddrError string string
  | Wrapped string "error option" string

text \<open>A call either returns or panics (nil-pointer dereference).\<close>

datatype 'a outcome = Returns 'a | Panics

section \<open>Strings (Go strings are byte sequences)\<close>

definition CRLF :: string where
  "CRLF = [CHR 0x0D, CHR 0x0A]"

text \<open>
  \<open>strings.TrimSpace\<close> removes leading and trailing white space as defined by
  Unicode. The UTF-8 encodings of the white-space runes (\<open>unicode.IsSpace\<close>):
  U+0009..U+000D, U+0020, U+0085, U+00A0, U+1680, U+2000..U+200A, U+2028, U+2029,
  U+202F, U+205F, U+3000.
\<close>

definition space_runes :: "string list" where
  "space_runes =
    [[CHR 0x09], [CHR 0x0A], [CHR 0x0B], [CHR 0x0C], [CHR 0x0D], [CHR 0x20],
     [CHR 0xC2, CHR 0x85], [CHR 0xC2, CHR 0xA0],
     [CHR 0xE1, CHR 0x9A, CHR 0x80],
     [CHR 0xE2, CHR 0x80, CHR 0x80], [CHR 0xE2, CHR 0x80, CHR 0x81],
     [CHR 0xE2, CHR 0x80, CHR 0x82], [CHR 0xE2, CHR 0x80, CHR 0x83],
     [CHR 0xE2, CHR 0x80, CHR 0x84], [CHR 0xE2, CHR 0x80, CHR 0x85],
     [CHR 0xE2, CHR 0x80, CHR 0x86], [CHR 0xE2, CHR 0x80, CHR 0x87],
     [CHR 0xE2, CHR 0x80, CHR 0x88], [CHR 0xE2, CHR 0x80, CHR 0x89],
     [CHR 0xE2, CHR 0x80, CHR 0x8A],
     [CHR 0xE2, CHR 0x80, CHR 0xA8], [CHR 0xE2, CHR 0x80, CHR 0xA9],
     [CHR 0xE2, CHR 0x80, CHR 0xAF],
     [CHR 0xE2, CHR 0x81, CHR 0x9F],
     [CHR 0xE3, CHR 0x80, CHR 0x80]]"

text \<open>The number of bytes of the rune of \<open>rs\<close> that \<open>s\<close> starts with; 0 if none.\<close>

definition leading_rune :: "string list \<Rightarrow> string \<Rightarrow> nat" where
  "leading_rune rs s =
     (case find (\<lambda>r. r \<noteq> [] \<and> take (length r) s = r) rs of
        None \<Rightarrow> 0
      | Some r \<Rightarrow> length r)"

fun strip_runes :: "string list \<Rightarrow> string \<Rightarrow> string" where
  "strip_runes rs [] = []"
| "strip_runes rs (c # cs) =
     (if leading_rune rs (c # cs) = 0 then c # cs
      else strip_runes rs (drop (leading_rune rs (c # cs) - 1) cs))"

definition TrimLeft :: "string \<Rightarrow> string" where
  "TrimLeft s = strip_runes space_runes s"

definition TrimRight :: "string \<Rightarrow> string" where
  "TrimRight s = rev (strip_runes (map rev space_runes) (rev s))"

definition TrimSpace :: "string \<Rightarrow> string" where
  "TrimSpace s = TrimRight (TrimLeft s)"

text \<open>\<open>strings.Contains(s, " ")\<close>: a one-byte substring is a member byte.\<close>

definition ContainsSpace :: "string \<Rightarrow> bool" where
  "ContainsSpace s = (CHR '' '' \<in> set s)"

text \<open>\<open>strings.Join\<close>.\<close>

fun Join :: "string list \<Rightarrow> string \<Rightarrow> string" where
  "Join [] sep = []"
| "Join [x] sep = x"
| "Join (x # y # ys) sep = x @ sep @ Join (y # ys) sep"

text \<open>\<open>bytealg.IndexByteString\<close> and \<open>bytealg.LastIndexByteString\<close>; \<open>None\<close> is -1.\<close>

fun IndexByte :: "string \<Rightarrow> char \<Rightarrow> nat option" where
  "IndexByte [] c = None"
| "IndexByte (x # xs) c = (if x = c then Some 0 else map_option Suc (IndexByte xs c))"

definition LastIndexByte :: "string \<Rightarrow> char \<Rightarrow> nat option" where
  "LastIndexByte s c =
     (case IndexByte (rev s) c of None \<Rightarrow> None | Some k \<Rightarrow> Some (length s - 1 - k))"

text \<open>\<open>strconv.Itoa\<close> (and \<open>fmt.Sprintf("%d", n)\<close>): the decimal numeral of an integer.\<close>

fun show_nat :: "nat \<Rightarrow> string" where
  "show_nat n =
     (if n < 10 then [''0123456789'' ! n]
      else show_nat (n div 10) @ [''0123456789'' ! (n mod 10)])"

declare show_nat.simps [simp del]

definition Itoa :: "int \<Rightarrow> string" where
  "Itoa n = (if n < 0 then CHR ''-'' # show_nat (nat (- n)) else show_nat (nat n))"

section \<open>Host and port (package net)\<close>

text \<open>\<open>net.JoinHostPort\<close>: a host with a colon is taken for an IPv6 literal and bracketed.\<close>

definition JoinHostPort :: "string \<Rightarrow> string \<Rightarrow> string" where
  "JoinHostPort host port =
     (if IndexByte host (CHR '':'') \<noteq> None then ''['' @ host @ '']:'' @ port
      else host @ '':'' @ port)"

text \<open>
  \<open>net.SplitHostPort\<close>, statement by statement: the port starts after the last colon; a
  leading bracket must close just before that colon; no other bracket may occur.
\<close>

definition SplitHostPort :: "string \<Rightarrow> error + (string \<times> string)" where
  "SplitHostPort hostport =
     (case LastIndexByte hostport (CHR '':'') of
        None \<Rightarrow> Inl (AddrError ''missing port in address'' hostport)
      | Some i \<Rightarrow>
          (let bracket =
             (if hd hostport = CHR ''['' then
                (case IndexByte hostport (CHR '']'') of
                   None \<Rightarrow> Inl (AddrError ''missing ']' in address'' hostport)
                 | Some e \<Rightarrow>
                     if e + 1 = length hostport then
                       Inl (AddrError ''missing port in address'' hostport)
                     else if e + 1 = i then
                       Inr (take (e - 1) (drop 1 hostport), 1, e + 1)
                     else if hostport ! (e + 1) = CHR '':'' then
                       Inl (AddrError ''too many colons in address'' hostport)
                     else Inl (AddrError ''missing port in address'' hostport))
              else if IndexByte (take i hostport) (CHR '':'') \<noteq> None then
                Inl (AddrError ''too many colons in address'' hostport)
              else Inr (take i hostport, 0, 0))
           in case bracket of
                Inl err \<Rightarrow> Inl err
              | Inr (host, j, k) \<Rightarrow>
                  if IndexByte (drop j hostport) (CHR ''['') \<noteq> None then
                    Inl (AddrError ''unexpected '[' in address'' hostport)
                  else if IndexByte (drop k hostport) (CHR '']'') \<noteq> None then
                    Inl (AddrError ''unexpected ']' in address'' hostport)
                  else Inr (host, drop (i + 1) hostport)))"

section \<open>Configuration (types.EmailConfig) and validation\<close>

text \<open>
  The declaration of \<open>types.EmailConfig\<close> is outside the package; the fields are those the
  package reads. The integer fields are Go \<open>int\<close> (the port is passed to
  \<open>strconv.Itoa\<close>, the retry count is compared with the \<open>int\<close> loop counter), taken
  here at its 64-bit width and read as two's complement with \<open>sint\<close>.
\<close>

record EmailConfig =
  Enabled :: bool
  Host :: string
  Port :: "64 word"
  Username :: string
  Password :: string
  From :: string
  To :: string
  Subject :: string
  Body :: string
  SmtpDialTimeoutSec :: "64 word"
  SmtpRetryCount :: "64 word"
  SmtpRetryDelaySec :: "64 word"

text \<open>
  \<open>validateConfig\<close> (internal.go). The receiver's \<open>Config\<close> pointer is dereferenced
  at once; the model takes the configuration it points to, and the callers model the
  nil pointer.
\<close>

definition validateConfig :: "EmailConfig \<Rightarrow> string \<Rightarrow> error option" where
  "validateConfig cfg op =
     (let host = TrimSpace (Host cfg) in
      if host = [] then Some (Wrapped op None ''email host cannot be empty'')
      else if ContainsSpace host then
        Some (Wrapped op None ''email host cannot contain spaces'')
      else if sint (Port cfg) \<le> 0 \<or> sint (Port cfg) > 65535 then
        Some (Wrapped op None ''email port must be between 1 and 65535'')
      else
        (case SplitHostPort (JoinHostPort host (Itoa (sint (Port cfg)))) of
           Inl err \<Rightarrow>
             Some (Wrapped op (Some err) ''invalid host or port for email config'')
         | Inr _ \<Rightarrow>
             (let from = TrimSpace (From cfg) in
              if from = [] then
                Some (Wrapped op None ''email from address cannot be empty'')
              else
                (let username = TrimSpace (Username cfg);
                     password = TrimSpace (Password cfg) in
                 if username = [] \<and> password \<noteq> [] then
                   Some (Wrapped op None
                     ''email username must be set when password is provided'')
                 else if password = [] \<and> username \<noteq> [] then
                   Some (Wrapped op None
                     ''email password must be set when username is provided'')
                 else None))))"

text \<open>The rules of the validator, as predicates on the configuration.\<close>

definition host_accepted :: "EmailConfig \<Rightarrow> bool" where
  "host_accepted cfg =
     (TrimSpace (Host cfg) \<noteq> [] \<and> \<not> ContainsSpace (TrimSpace (Host cfg)))"

definition port_accepted :: "EmailConfig \<Rightarrow> bool" where
  "port_accepted cfg = (0 < sint (Port cfg) \<and> sint (Port cfg) \<le> 65535)"

definition joinable :: "EmailConfig \<Rightarrow> bool" where
  "joinable cfg =
     (\<not> isl (SplitHostPort
        (JoinHostPort (TrimSpace (Host cfg)) (Itoa (sint (Port cfg))))))"

text \<open>The configuration of the package's own validation test (an IPv6 literal host).\<close>

definition cfg_ipv6 :: EmailConfig where
  "cfg_ipv6 =
     \<lparr>Enabled = True, Host = ''2001:db8::1'', Port = 587, Username = [],
      Password = [], From = ''from@example.com'', To = [], Subject = [], Body = [],
      SmtpDialTimeoutSec = 0, SmtpRetryCount = 0, SmtpRetryDelaySec = 0\<rparr>"

section \<open>The service and its life cycle\<close>

text \<open>
  \<open>Service\<close> (part_001, service.go). A nil pointer is \<open>None\<close> or \<open>False\<close>: the
  configuration provider is the result its \<open>EmailConfig()\<close> returns, the logger is an
  opaque sink of which only its presence matters. \<open>initOnce\<close> is the done flag of
  \<open>sync.Once\<close>. The package variable \<open>smtpDialTimeout\<close> (a \<open>time.Duration\<close>, 64-bit
  nanoseconds) is part of the state.
\<close>

record Service =
  ConfigService :: "(error + EmailConfig) option"
  LoggerService :: bool
  Config :: "EmailConfig option"
  isInitialized :: bool
  initOnce :: bool

record state =
  service :: Service
  smtpDialTimeout :: "64 word"

definition Second :: "64 word" where
  "Second = 1000000000"

text \<open>The dial timeout derived from the configuration (part_001, lines 233-245).\<close>

definition derive_dial_timeout :: "EmailConfig \<Rightarrow> 64 word" where
  "derive_dial_timeout cfg =
     (if 0 <s SmtpDialTimeoutSec cfg then
        (let d = SmtpDialTimeoutSec cfg * Second;
             d1 = (if d <s Second then Second else d);
             d2 = (if 60 * Second <s d1 then 60 * Second else d1)
         in d2)
      else 10 * Second)"

definition op_Initialize :: string where
  "op_Initialize = ''email.Service.Initialize''"

text \<open>
  \<open>Initialize\<close> (part_001). \<open>initErr\<close> is a local variable of the call: a call that
  finds the \<open>Once\<close> already done returns it as declared, nil.
\<close>

definition Initialize :: "state \<Rightarrow> state \<times> error option" where
  "Initialize st =
     (let s = service st in
      if isInitialized s then (st, None)
      else if initOnce s then (st, None)
      else
        (let s1 = s\<lparr>initOnce := True\<rparr> in
         if \<not> LoggerService s1 then
           (st\<lparr>service := s1\<rparr>,
            Some (Wrapped op_Initialize None ''logger service has not been set/injected''))
         else
           (case ConfigService s1 of
              None \<Rightarrow>
                (st\<lparr>service := s1\<rparr>,
                 Some (Wrapped op_Initialize None
                   ''application config has not been set/injected''))
            | Some (Inl err) \<Rightarrow>
                (st\<lparr>service := s1\<rparr>,
                 Some (Wrapped op_Initialize (Some err) ''getting email config''))
            | Some (Inr cfg) \<Rightarrow>
                (case validateConfig cfg op_Initialize of
                   Some err \<Rightarrow>
                     (st\<lparr>service := s1\<lparr>Config := Some (cfg\<lparr>Enabled := False\<rparr>)\<rparr>\<rparr>,
                      Some err)
                 | None \<Rightarrow>
                     (st\<lparr>service := s1\<lparr>Config := Some cfg, isInitialized := True\<rparr>,
                         smtpDialTimeout := derive_dial_timeout cfg\<rparr>,
                      None)))))"

text \<open>
  \<open>Initialize\<close> of service.go (lines 22-51): the configuration is not fetched, and
  \<open>validateConfig\<close> dereferences \<open>s.Config\<close>, a panic when it is nil. \<open>sync.Once\<close>
  counts a call that panicked as done.
\<close>

definition Initialize_service_go :: "state \<Rightarrow> state \<times> error option outcome" where
  "Initialize_service_go st =
     (let s = service st in
      if isInitialized s then (st, Returns None)
      else if initOnce s then (st, Returns None)
      else
        (let s1 = s\<lparr>initOnce := True\<rparr> in
         if \<not> LoggerService s1 then
           (st\<lparr>service := s1\<rparr>,
            Returns (Some (Wrapped op_Initialize None
              ''logger service has not been set/injected'')))
         else if Config s1 = None \<and> ConfigService s1 = None then
           (st\<lparr>service := s1\<rparr>,
            Returns (Some (Wrapped op_Initialize None
              ''application config has not been set/injected'')))
         else
           (case Config s1 of
              None \<Rightarrow> (st\<lparr>service := s1\<rparr>, Panics)
            | Some cfg \<Rightarrow>
                (case validateConfig cfg op_Initialize of
                   Some err \<Rightarrow> (st\<lparr>service := s1\<rparr>, Returns (Some err))
                 | None \<Rightarrow>
                     (st\<lparr>service := s1\<lparr>isInitialized := True\<rparr>\<rparr>, Returns None)))))"

section \<open>Sending with retries\<close>

record MsgDef =
  MsgFrom :: string
  MsgTo :: "string list"
  Msg :: string

text \<open>\<open>smtp.Auth\<close>: nil, or \<open>smtp.PlainAuth(identity, username, password, host)\<close>.\<close>

datatype Auth = PlainAuth string string string string

text \<open>
  What a call of \<open>Send\<close> does to the world, in order: the events handed to the logger,
  the sleeps, and the calls of the transport \<open>sendMailFn\<close> with their arguments.
\<close>

datatype event =
    WarnLog string
  | ErrorLog error string string "64 word" string
  | InfoLog string string string
  | Sleep "64 word"
  | SendMail string "Auth option" string "string list" string

text \<open>
  \<open>sendMailFn\<close> is a package variable (\<open>sendMailWithTLS\<close>, or a test's substitute). Its
  result may differ from call to call: it is a function of the number of earlier calls
  and of the arguments.
\<close>

type_synonym transport =
  "nat \<Rightarrow> string \<Rightarrow> Auth option \<Rightarrow> string \<Rightarrow> string list \<Rightarrow> string \<Rightarrow> error option"

text \<open>
  Modelled from the spec: the constant \<open>errMsgNotInitialized\<close> is declared elsewhere
  in the package; the spec calls the failure a "not initialized" error.
\<close>

definition errMsgNotInitialized :: string where
  "errMsgNotInitialized = ''email service is not initialized''"

definition op_Send :: string where
  "op_Send = ''email.Service.Send''"

record envelope =
  env_host :: string
  env_addr :: string
  env_auth :: "Auth option"
  env_from :: string
  env_to :: "string list"
  env_msg :: string

text \<open>
  The retry loop of \<open>Send\<close> (part_001, lines 292-305), from the loop test on. The
  counter \<open>attempt\<close> is a Go \<open>int\<close>: \<open>attempt++\<close> wraps around, so the loop need not
  end, and a run that never leaves it has no result (\<open>None\<close>). \<open>calls\<close> counts the
  calls of the transport made so far.
\<close>

partial_function (option) retry_loop ::
  "transport \<Rightarrow> envelope \<Rightarrow> 64 word \<Rightarrow> 64 word \<Rightarrow> 64 word \<Rightarrow> nat \<Rightarrow> error option \<Rightarrow>
   event list \<Rightarrow> (error option \<times> event list) option"
where
  "retry_loop tr e retries delay attempt calls lastErr evs =
     (if attempt \<le>s retries then
        (let evs1 = (if 0 <s attempt \<and> 0 <s delay then evs @ [Sleep delay] else evs);
             call = SendMail (env_addr e) (env_auth e) (env_from e) (env_to e) (env_msg e)
         in case tr calls (env_addr e) (env_auth e) (env_from e) (env_to e) (env_msg e) of
              Some err \<Rightarrow>
                retry_loop tr e retries delay (attempt + 1) (Suc calls) (Some err)
                  (evs1 @ [call,
                     ErrorLog err (env_host e) (env_addr e) (attempt + 1) ''email send failed''])
            | None \<Rightarrow>
                Some (None, evs1 @ [call, InfoLog (env_host e) (env_addr e) ''email sent'']))
      else Some (lastErr, evs))"

text \<open>
  \<open>Send\<close> (part_001, lines 254-311). It returns the state it was given, its result and
  the events in order; \<open>None\<close> when the retry loop never ends. The logger is called
  whether or not it is present (the package's tests send with a nil logger).
\<close>

definition Send ::
  "transport \<Rightarrow> state \<Rightarrow> MsgDef \<Rightarrow> (state \<times> error option outcome \<times> event list) option"
where
  "Send tr st email =
     (let s = service st in
      if \<not> isInitialized s then
        Some (st, Returns (Some (Wrapped op_Send None errMsgNotInitialized)), [])
      else
        (case Config s of
           None \<Rightarrow> Some (st, Panics, [])
         | Some cfg \<Rightarrow>
             if \<not> Enabled cfg then
               Some (st, Returns None, [WarnLog ''email service is disabled in the config''])
             else
               (let host = TrimSpace (Host cfg);
                    username = TrimSpace (Username cfg);
                    password = TrimSpace (Password cfg);
                    from0 = TrimSpace (MsgFrom email);
                    from = (if from0 = [] then TrimSpace (From cfg) else from0)
                in
                if from = [] then
                  Some (st,
                    Returns (Some (Wrapped op_Send None ''email from address cannot be empty'')),
                    [])
                else
                  (let addr = JoinHostPort host (Itoa (sint (Port cfg)));
                       auth = (if username \<noteq> [] then Some (PlainAuth [] username password host)
                               else None);
                       retries = (if SmtpRetryCount cfg <s 0 then 0 else SmtpRetryCount cfg);
                       delay0 = SmtpRetryDelaySec cfg * Second;
                       delay = (if delay0 \<le>s 0 then 0 else delay0);
                       e = \<lparr>env_host = host, env_addr = addr, env_auth = auth,
                            env_from = from, env_to = MsgTo email, env_msg = Msg email\<rparr>
                   in case retry_loop tr e retries delay 0 0 None [] of
                        None \<Rightarrow> None
                      | Some (lastErr, evs) \<Rightarrow>
                          (case lastErr of
                             Some err \<Rightarrow>
                               Some (st,
                                 Returns (Some (Wrapped op_Send (Some err)
                                   ''failed to send email'')),
                                 evs)
                           | None \<Rightarrow> Some (st, Returns None, evs))))))"

text \<open>
  The values \<open>Send\<close> derives from the configuration and the message before it enters the
  loop: the envelope sender, the arguments of the transport, the retry count and the
  delay, both floored at zero.
\<close>

definition resolved_from :: "EmailConfig \<Rightarrow> MsgDef \<Rightarrow> string" where
  "resolved_from cfg email =
     (if TrimSpace (MsgFrom email) = [] then TrimSpace (From cfg)
      else TrimSpace (MsgFrom email))"

definition envelope_of :: "EmailConfig \<Rightarrow> MsgDef \<Rightarrow> envelope" where
  "envelope_of cfg email =
     \<lparr>env_host = TrimSpace (Host cfg),
      env_addr = JoinHostPort (TrimSpace (Host cfg)) (Itoa (sint (Port cfg))),
      env_auth =
        (if TrimSpace (Username cfg) \<noteq> [] then
           Some (PlainAuth [] (TrimSpace (Username cfg)) (TrimSpace (Password cfg))
             (TrimSpace (Host cfg)))
         else None),
      env_from = resolved_from cfg email,
      env_to = MsgTo email,
      env_msg = Msg email\<rparr>"

definition retry_count :: "EmailConfig \<Rightarrow> nat" where
  "retry_count cfg = nat (sint (SmtpRetryCount cfg))"

definition retry_delay :: "EmailConfig \<Rightarrow> 64 word" where
  "retry_delay cfg =
     (if SmtpRetryDelaySec cfg * Second \<le>s 0 then 0 else SmtpRetryDelaySec cfg * Second)"

definition transport_result :: "transport \<Rightarrow> nat \<Rightarrow> envelope \<Rightarrow> error option" where
  "transport_result tr n e =
     tr n (env_addr e) (env_auth e) (env_from e) (env_to e) (env_msg e)"

text \<open>
  The events of one attempt, numbered from 0: the sleep before every attempt after the
  first when the delay is positive, the call of the transport, and the log entry.
\<close>

definition sleep_before :: "64 word \<Rightarrow> nat \<Rightarrow> event list" where
  "sleep_before delay i = (if 0 < i \<and> 0 <s delay then [Sleep delay] else [])"

definition transport_call :: "envelope \<Rightarrow> event" where
  "transport_call e =
     SendMail (env_addr e) (env_auth e) (env_from e) (env_to e) (env_msg e)"

definition failed_attempt :: "envelope \<Rightarrow> 64 word \<Rightarrow> (nat \<Rightarrow> error) \<Rightarrow> nat \<Rightarrow> event list" where
  "failed_attempt e delay errs i =
     sleep_before delay i @
     [transport_call e,
      ErrorLog (errs i) (env_host e) (env_addr e) (of_nat i + 1) ''email send failed'']"

definition successful_attempt :: "envelope \<Rightarrow> 64 word \<Rightarrow> nat \<Rightarrow> event list" where
  "successful_attempt e delay i =
     sleep_before delay i @
     [transport_call e, InfoLog (env_host e) (env_addr e) ''email sent'']"

fun is_SendMail :: "event \<Rightarrow> bool" where
  "is_SendMail (SendMail addr auth from to msg) = True"
| "is_SendMail ev = False"

definition transport_calls :: "event list \<Rightarrow> nat" where
  "transport_calls evs = length (filter is_SendMail evs)"

text \<open>
  For the examples: a transport that fails on every call and one that fails twice, an
  initialized service, the configuration and the message of the package's retry test,
  and a service without a logger.
\<close>

definition always_failing :: transport where
  "always_failing n addr auth from to msg = Some (Plain ''temporary'')"

definition st_ready :: "EmailConfig \<Rightarrow> state" where
  "st_ready cfg =
     \<lparr>service = \<lparr>ConfigService = Some (Inr cfg), LoggerService = True, Config = Some cfg,
                 isInitialized = True, initOnce = True\<rparr>,
      smtpDialTimeout = 10 * Second\<rparr>"

definition cfg_smtp :: EmailConfig where
  "cfg_smtp =
     \<lparr>Enabled = True, Host = ''smtp.example.com'', Port = 587, Username = ''user'',
      Password = ''pass'', From = ''cfg@example.com'', To = [], Subject = [], Body = [],
      SmtpDialTimeoutSec = 0, SmtpRetryCount = 2, SmtpRetryDelaySec = 1\<rparr>"

definition fails_twice :: transport where
  "fails_twice n addr auth from to msg = (if n < 2 then Some (Plain ''temporary'') else None)"

definition msg_hi :: MsgDef where
  "msg_hi = \<lparr>MsgFrom = ''from@example.com'', MsgTo = [''to@example.com''], Msg = ''hi''\<rparr>"

definition st_no_logger :: state where
  "st_no_logger =
     \<lparr>service = \<lparr>ConfigService = None, LoggerService = False, Config = None,
                 isInitialized = False, initOnce = False\<rparr>,
      smtpDialTimeout = 10 * Second\<rparr>"

section \<open>The transport: one SMTP session, implicit TLS and STARTTLS\<close>

text \<open>
  The transport exists in two revisions, internal.go and part_000. They differ only in
  how an error is returned: part_000 wraps it with the operation name, and lets the
  error of closing the connection or the data section take precedence. The revision is
  a parameter of the model.
\<close>

datatype revision = Internal_go | Part_000

definition wrap :: "revision \<Rightarrow> string \<Rightarrow> error option \<Rightarrow> error option" where
  "wrap rv op r =
     (case r of
        None \<Rightarrow> None
      | Some err \<Rightarrow>
          (case rv of Internal_go \<Rightarrow> Some err | Part_000 \<Rightarrow> Some (Wrapped op (Some err) [])))"

text \<open>
  The calls the session makes on the connection and on the \<open>smtp.Client\<close>, in order.
\<close>

datatype smtp_op =
    NewClient string
  | ConnClose
  | Hello string
  | Extension string
  | StartTLS string
  | AuthCmd Auth
  | Mail string
  | Rcpt string
  | Data
  | Write string
  | CloseData
  | Quit
  | ClientClose

text \<open>
  The other end of a connection: what each call of the client returns. \<open>hello\<close> is
  indexed by the number of earlier \<open>Hello\<close> calls, \<open>rcpt_reply\<close> by the position of the
  recipient. No assumption is made on the replies.
\<close>

record peer =
  new_client :: "error option"
  conn_close :: "error option"
  hello :: "nat \<Rightarrow> error option"
  starttls_ext :: bool
  start_tls :: "error option"
  auth_reply :: "error option"
  mail_reply :: "error option"
  rcpt_reply :: "nat \<Rightarrow> string \<Rightarrow> error option"
  data_reply :: "error option"
  write_reply :: "error option"
  close_reply :: "error option"
  quit_reply :: "error option"

text \<open>
  Statements in sequence, each returning at its first error: the second runs only if the
  first succeeded, and the calls made add up.
\<close>

definition andThen ::
  "error option \<times> 'a list \<Rightarrow> error option \<times> 'a list \<Rightarrow> error option \<times> 'a list"
where
  "andThen a b = (case fst a of Some err \<Rightarrow> a | None \<Rightarrow> (fst b, snd a @ snd b))"

definition op_sendWithClient :: string where
  "op_sendWithClient = ''email.sendWithClient''"

definition tls_required :: "revision \<Rightarrow> error" where
  "tls_required rv =
     (case rv of
        Internal_go \<Rightarrow> Plain ''smtp server does not support STARTTLS; TLS required''
      | Part_000 \<Rightarrow>
          Wrapped op_sendWithClient None
            ''smtp server does not support STARTTLS; TLS required'')"

text \<open>The loop over the recipients: the first rejection ends it.\<close>

fun rcpt_loop :: "revision \<Rightarrow> peer \<Rightarrow> nat \<Rightarrow> string list \<Rightarrow> error option \<times> smtp_op list" where
  "rcpt_loop rv p i [] = (None, [])"
| "rcpt_loop rv p i (addr # rest) =
     andThen (wrap rv op_sendWithClient (rcpt_reply p i addr), [Rcpt addr])
       (rcpt_loop rv p (Suc i) rest)"

text \<open>
  \<open>sendWithClient\<close> (internal.go lines 87-147, part_000 lines 88-157). \<open>hostname\<close> is
  the result of \<open>resolveHostname()\<close>. The deferred \<open>client.Close()\<close> runs last on every
  path after the client exists.
\<close>

definition sendWithClient ::
  "revision \<Rightarrow> peer \<Rightarrow> string \<Rightarrow> string \<Rightarrow> Auth option \<Rightarrow> string \<Rightarrow> string list \<Rightarrow> string \<Rightarrow>
   bool \<Rightarrow> error option \<times> smtp_op list"
where
  "sendWithClient rv p hostname host auth from to msg alreadyTLS =
     (case new_client p of
        Some err \<Rightarrow>
          (case rv of
             Internal_go \<Rightarrow> (Some err, [NewClient host, ConnClose])
           | Part_000 \<Rightarrow>
               (case conn_close p of
                  Some cerr \<Rightarrow>
                    (Some (Wrapped op_sendWithClient (Some cerr) []),
                     [NewClient host, ConnClose])
                | None \<Rightarrow>
                    (Some (Wrapped op_sendWithClient (Some err) []),
                     [NewClient host, ConnClose])))
      | None \<Rightarrow>
          (let session =
             andThen (wrap rv op_sendWithClient (hello p 0), [Hello hostname])
            (andThen
               (if \<not> alreadyTLS then
                  andThen
                    (if \<not> starttls_ext p then Some (tls_required rv) else None,
                     [Extension ''STARTTLS''])
                 (andThen (wrap rv op_sendWithClient (start_tls p), [StartTLS host])
                    (wrap rv op_sendWithClient (hello p 1), [Hello hostname]))
                else (None, []))
            (andThen
               (case auth of
                  None \<Rightarrow> (None, [])
                | Some a \<Rightarrow> (wrap rv op_sendWithClient (auth_reply p), [AuthCmd a]))
            (andThen (mail_reply p, [Mail from])
            (andThen (rcpt_loop rv p 0 to)
            (andThen (data_reply p, [Data])
            (andThen
               (case write_reply p of
                  Some err \<Rightarrow>
                    (case rv of
                       Internal_go \<Rightarrow> (Some err, [Write msg, CloseData])
                     | Part_000 \<Rightarrow>
                         (case close_reply p of
                            Some cerr \<Rightarrow>
                              (Some (Wrapped op_sendWithClient (Some cerr) []),
                               [Write msg, CloseData])
                          | None \<Rightarrow>
                              (Some (Wrapped op_sendWithClient (Some err) []),
                               [Write msg, CloseData])))
                | None \<Rightarrow> (None, [Write msg]))
            (andThen (wrap rv op_sendWithClient (close_reply p), [CloseData])
               (case quit_reply p of Some err \<Rightarrow> None | None \<Rightarrow> None, [Quit]))))))))
           in (fst session, NewClient host # snd session @ [ClientClose])))"

text \<open>
  The network as one delivery attempt meets it: the outcome of the TLS dial and of the
  plain dial, the peers behind them, and the local host name.
\<close>

record network =
  tls_dial :: "error option"
  tls_peer :: peer
  tcp_dial :: "error option"
  tcp_peer :: peer
  local_hostname :: string

datatype net_event =
    DialTLS "64 word" string string
  | DialTCP "64 word" string
  | OverTLS smtp_op
  | OverTCP smtp_op

definition tryImplicitTLS ::
  "revision \<Rightarrow> network \<Rightarrow> 64 word \<Rightarrow> string \<Rightarrow> string \<Rightarrow> Auth option \<Rightarrow> string \<Rightarrow>
   string list \<Rightarrow> string \<Rightarrow> error option \<times> net_event list"
where
  "tryImplicitTLS rv net timeout host addr auth from to msg =
     (case tls_dial net of
        Some err \<Rightarrow>
          (wrap rv ''email.tryImplicitTLS'' (Some err), [DialTLS timeout addr host])
      | None \<Rightarrow>
          (let r = sendWithClient rv (tls_peer net) (local_hostname net) host auth from to
                     msg True
           in (fst r, DialTLS timeout addr host # map OverTLS (snd r))))"

definition tryStartTLS ::
  "revision \<Rightarrow> network \<Rightarrow> 64 word \<Rightarrow> string \<Rightarrow> string \<Rightarrow> Auth option \<Rightarrow> string \<Rightarrow>
   string list \<Rightarrow> string \<Rightarrow> error option \<times> net_event list"
where
  "tryStartTLS rv net timeout host addr auth from to msg =
     (case tcp_dial net of
        Some err \<Rightarrow> (wrap rv ''email.tryStartTLS'' (Some err), [DialTCP timeout addr])
      | None \<Rightarrow>
          (let r = sendWithClient rv (tcp_peer net) (local_hostname net) host auth from to
                     msg False
           in (fst r, DialTCP timeout addr # map OverTCP (snd r))))"

text \<open>
  \<open>sendMailWithTLS\<close> (lines 56-68 of both revisions); \<open>timeout\<close> is the package variable
  \<open>smtpDialTimeout\<close>.
\<close>

definition sendMailWithTLS ::
  "revision \<Rightarrow> network \<Rightarrow> 64 word \<Rightarrow> string \<Rightarrow> Auth option \<Rightarrow> string \<Rightarrow> string list \<Rightarrow>
   string \<Rightarrow> error option \<times> net_event list"
where
  "sendMailWithTLS rv net timeout addr auth from to msg =
     (case SplitHostPort addr of
        Inl err \<Rightarrow>
          (Some (Wrapped ''email.sendMailWithTLS'' (Some err) ''invalid smtp address''), [])
      | Inr (host, port) \<Rightarrow>
          (let first = tryImplicitTLS rv net timeout host addr auth from to msg in
           if fst first = None then (None, snd first)
           else
             (let second = tryStartTLS rv net timeout host addr auth from to msg
              in (fst second, snd first @ snd second))))"

text \<open>The calls that carry credentials, envelope or message.\<close>

fun payload_op :: "smtp_op \<Rightarrow> bool" where
  "payload_op (AuthCmd a) = True"
| "payload_op (Mail from) = True"
| "payload_op (Rcpt addr) = True"
| "payload_op Data = True"
| "payload_op (Write msg) = True"
| "payload_op op = False"

fun is_dial :: "net_event \<Rightarrow> bool" where
  "is_dial (DialTLS timeout addr host) = True"
| "is_dial (DialTCP timeout addr) = True"
| "is_dial ev = False"

text \<open>A peer that accepts everything, and the arguments of one delivery.\<close>

definition accepting_peer :: peer where
  "accepting_peer =
     \<lparr>new_client = None, conn_close = None, hello = (\<lambda>n. None), starttls_ext = True,
      start_tls = None, auth_reply = None, mail_reply = None,
      rcpt_reply = (\<lambda>n addr. None), data_reply = None, write_reply = None,
      close_reply = None, quit_reply = None\<rparr>"

definition plain_auth :: Auth where
  "plain_auth = PlainAuth [] ''user'' ''pass'' ''smtp.example.com''"

text \<open>
  Two networks: one whose relay accepts TLS connections but rejects the credentials, one
  that refuses TLS connections. The plain connection behind both accepts everything.
\<close>

definition net_auth_rejected :: network where
  "net_auth_rejected =
     \<lparr>tls_dial = None,
      tls_peer = accepting_peer\<lparr>auth_reply := Some (Plain ''535 authentication failed'')\<rparr>,
      tcp_dial = None, tcp_peer = accepting_peer, local_hostname = ''localhost''\<rparr>"

definition net_tls_refused :: network where
  "net_tls_refused =
     \<lparr>tls_dial = Some (Plain ''connection refused''), tls_peer = accepting_peer,
      tcp_dial = None, tcp_peer = accepting_peer, local_hostname = ''localhost''\<rparr>"

section \<open>The composer\<close>

text \<open>
  \<open>textproto.CanonicalMIMEHeaderKey\<close>: a key made of header-field bytes gets an upper
  case letter at its start and after every hyphen and lower case letters elsewhere; any
  other key is returned unchanged.
\<close>

definition validHeaderFieldByte :: "char \<Rightarrow> bool" where
  "validHeaderFieldByte c =
     ((97 \<le> (of_char c :: nat) \<and> (of_char c :: nat) \<le> 122) \<or>
      (65 \<le> (of_char c :: nat) \<and> (of_char c :: nat) \<le> 90) \<or>
      (48 \<le> (of_char c :: nat) \<and> (of_char c :: nat) \<le> 57) \<or>
      c \<in> set [CHR 0x21, CHR ''#'', CHR ''$'', CHR ''%'', CHR ''&'', CHR 0x27, CHR ''*'',
        CHR ''+'', CHR ''-'', CHR ''.'', CHR ''^'', CHR ''_'', CHR 0x60, CHR ''|'', CHR ''~''])"

fun canonical_from :: "bool \<Rightarrow> string \<Rightarrow> string" where
  "canonical_from upper [] = []"
| "canonical_from upper (c # cs) =
     (let n = (of_char c :: nat);
          c' = (if upper \<and> 97 \<le> n \<and> n \<le> 122 then char_of (n - 32)
                else if \<not> upper \<and> 65 \<le> n \<and> n \<le> 90 then char_of (n + 32)
                else c)
      in c' # canonical_from (c' = CHR ''-'') cs)"

definition CanonicalMIMEHeaderKey :: "string \<Rightarrow> string" where
  "CanonicalMIMEHeaderKey s =
     (if list_all validHeaderFieldByte s then canonical_from True s else s)"

text \<open>\<open>textproto.MIMEHeader\<close> is a Go map from keys to value lists; \<open>Set\<close> replaces.\<close>

type_synonym MIMEHeader = "string \<rightharpoonup> string list"

definition Set :: "string \<Rightarrow> string \<Rightarrow> MIMEHeader \<Rightarrow> MIMEHeader" where
  "Set key v h = h(CanonicalMIMEHeaderKey key \<mapsto> [v])"

text \<open>
  What the composer takes from elsewhere: \<open>splitAndTrim\<close>, \<open>generateMessageID\<close> and
  \<open>mapToMIMEHeader\<close> (helpers declared in another file of the package), the record
  compositor, the clock (read twice), the boundary
  chosen by \<open>multipart.NewWriter\<close>, \<open>fmt\<close>'s \<open>%q\<close>, base64, and the writers of
  \<open>mime/multipart\<close> and \<open>mime/quotedprintable\<close>, each as the bytes it appends to the
  buffer or the error it returns. \<open>range_order\<close> is the order in which \<open>range\<close> visits
  the keys of the header map, which Go leaves unspecified.
\<close>

record 'q composer_env =
  splitAndTrim :: "string \<Rightarrow> string list"
  generateMessageID :: string
  mapToMIMEHeader :: "(string \<times> string) list \<Rightarrow> MIMEHeader"
  ComposeToAdifString :: "'q list \<Rightarrow> error + string"
  now_stamp :: string
  now_rfc1123z :: string
  mw_boundary :: string
  quoted :: "string \<Rightarrow> string"
  base64_encode :: "string \<Rightarrow> string"
  range_order :: "string list"
  CreatePart :: "nat \<Rightarrow> MIMEHeader \<Rightarrow> error + string"
  qp_Write :: "string \<Rightarrow> error + string"
  qp_Close :: "error + string"
  part_Write :: "nat \<Rightarrow> string \<Rightarrow> error option"
  mw_Close :: "error + string"

definition op_Build :: string where
  "op_Build = ''email.Service.BuildEmailWithADIFAttachment''"

text \<open>The loop that writes the headers (part_001, lines 366-374), for one key.\<close>

definition header_line :: "MIMEHeader \<Rightarrow> string \<Rightarrow> string" where
  "header_line hdr k =
     (case hdr k of
        None \<Rightarrow> []
      | Some v \<Rightarrow> if v = [] then [] else k @ '': '' @ Join v '', '' @ CRLF)"

text \<open>
  The loop over the base64 text in chunks of 76 (lines 405-416); \<open>n\<close> counts the writes.
\<close>

fun write_chunks :: "'q composer_env \<Rightarrow> nat \<Rightarrow> string \<Rightarrow> error + string" where
  "write_chunks env n s =
     (if s = [] then Inr []
      else
        (case part_Write env n (take 76 s) of
           Some err \<Rightarrow> Inl (Wrapped op_Build (Some err) ''write attachment part'')
         | None \<Rightarrow>
             (case part_Write env (Suc n) CRLF of
                Some err \<Rightarrow> Inl (Wrapped op_Build (Some err) ''write attachment newline'')
              | None \<Rightarrow>
                  (case write_chunks env (Suc (Suc n)) (drop 76 s) of
                     Inl err \<Rightarrow> Inl err
                   | Inr rest \<Rightarrow> Inr (take 76 s @ CRLF @ rest)))))"

declare write_chunks.simps [simp del]

text \<open>The two parts and the closing boundary (lines 377-419): the bytes written, in order.\<close>

definition multipart_body ::
  "'q composer_env \<Rightarrow> string \<Rightarrow> string \<Rightarrow> string \<Rightarrow> error + string"
where
  "multipart_body env msg filename adifB64 =
     (case CreatePart env 0 (mapToMIMEHeader env
             [(''Content-Type'', ''text/plain; charset=utf-8''),
              (''Content-Transfer-Encoding'', ''quoted-printable'')]) of
        Inl err \<Rightarrow> Inl (Wrapped op_Build (Some err) ''create body part'')
      | Inr b1 \<Rightarrow>
     (case qp_Write env msg of
        Inl err \<Rightarrow> Inl (Wrapped op_Build (Some err) ''write body'')
      | Inr b2 \<Rightarrow>
     (case qp_Close env of
        Inl err \<Rightarrow> Inl (Wrapped op_Build (Some err) ''close qp'')
      | Inr b3 \<Rightarrow>
     (case CreatePart env 1 (mapToMIMEHeader env
             [(''Content-Type'', ''application/octet-stream; name='' @ quoted env filename),
              (''Content-Transfer-Encoding'', ''base64''),
              (''Content-Disposition'', ''attachment; filename='' @ quoted env filename)]) of
        Inl err \<Rightarrow> Inl (Wrapped op_Build (Some err) ''create attachment part'')
      | Inr b4 \<Rightarrow>
     (case write_chunks env 0 adifB64 of
        Inl err \<Rightarrow> Inl err
      | Inr b5 \<Rightarrow>
     (case mw_Close env of
        Inl err \<Rightarrow> Inl (Wrapped op_Build (Some err) ''finalize multipart'')
      | Inr b6 \<Rightarrow> Inr (b1 @ b2 @ b3 @ b4 @ b5 @ b6)))))))"

text \<open>Reading a field through the \<open>Config\<close> pointer: a panic when the pointer is nil.\<close>

definition config_field :: "Service \<Rightarrow> (EmailConfig \<Rightarrow> 'a) \<Rightarrow> 'a outcome" where
  "config_field s f = (case Config s of None \<Rightarrow> Panics | Some cfg \<Rightarrow> Returns (f cfg))"

definition and_then :: "'a outcome \<Rightarrow> ('a \<Rightarrow> 'b outcome) \<Rightarrow> 'b outcome" where
  "and_then x f = (case x of Panics \<Rightarrow> Panics | Returns v \<Rightarrow> f v)"

text \<open>The header map as the composer fills it (lines 349-363).\<close>

definition composed_header ::
  "'q composer_env \<Rightarrow> string \<Rightarrow> string list \<Rightarrow> string \<Rightarrow> MIMEHeader"
where
  "composed_header env from tos subject =
     Set ''Content-Type'' (''multipart/mixed; boundary='' @ quoted env (mw_boundary env))
    (Set ''MIME-Version'' ''1.0''
    (Set ''Message-ID'' (generateMessageID env)
    (Set ''Date'' (now_rfc1123z env)
    (Set ''Subject'' subject
    (Set ''To'' (Join tos '', '')
    (Set ''From'' from Map.empty))))))"

text \<open>\<open>BuildEmailWithADIFAttachment\<close> (part_001, lines 313-422).\<close>

definition BuildEmailWithADIFAttachment ::
  "'q composer_env \<Rightarrow> Service \<Rightarrow> string \<Rightarrow> string \<Rightarrow> string \<Rightarrow> string list \<Rightarrow> 'q list \<Rightarrow>
   (error + MsgDef) outcome"
where
  "BuildEmailWithADIFAttachment env s from subject msg to qsos =
     and_then (if TrimSpace from = [] then config_field s From
               else Returns (TrimSpace from)) (\<lambda>from.
     and_then (if to = [] then config_field s (\<lambda>cfg. splitAndTrim env (To cfg))
               else Returns to) (\<lambda>tos.
     if tos = [] then
       Returns (Inl (Wrapped op_Build None ''email TO address cannot be empty''))
     else
     and_then (if TrimSpace subject = [] then config_field s Subject
               else Returns (TrimSpace subject)) (\<lambda>subject.
     and_then (if TrimSpace msg = [] then config_field s Body
               else Returns (TrimSpace msg)) (\<lambda>msg.
     if qsos = [] then Returns (Inl (Wrapped op_Build None ''QSO qsos cannot be empty''))
     else
       (case ComposeToAdifString env qsos of
          Inl err \<Rightarrow>
            Returns (Inl (Wrapped op_Build (Some err) ''failed to compose ADIF string''))
        | Inr adifContent \<Rightarrow>
            (let filename = now_stamp env @ ''-export.adi'';
                 adifB64 = base64_encode env adifContent;
                 hdr = composed_header env from tos subject;
                 head = concat (map (header_line hdr) (range_order env)) @ CRLF
             in case multipart_body env msg filename adifB64 of
                  Inl err \<Rightarrow> Returns (Inl err)
                | Inr body \<Rightarrow>
                    Returns (Inr \<lparr>MsgFrom = from, MsgTo = tos, Msg = head @ body\<rparr>)))))))"

text \<open>
  The keys of the header map, in the order of insertion. An iteration of the map visits
  each of them once, in some order.
\<close>

definition header_keys :: "string list" where
  "header_keys =
     [''From'', ''To'', ''Subject'', ''Date'', ''Message-Id'', ''Mime-Version'',
      ''Content-Type'']"

definition iteration_order :: "string list \<Rightarrow> bool" where
  "iteration_order ks = (distinct ks \<and> set ks = set header_keys)"

text \<open>The document of a call that produced one.\<close>

fun document :: "(error + MsgDef) outcome \<Rightarrow> MsgDef option" where
  "document (Returns (Inr doc)) = Some doc"
| "document r = None"

text \<open>
  An environment for examples: fixed clock, identifier and boundary, writers that append
  a marker for each part; and the same environment visiting the header map in the
  opposite order.
\<close>

definition env_insertion :: "unit composer_env" where
  "env_insertion =
     \<lparr>splitAndTrim = (\<lambda>s. if s = [] then [] else [s]),
      generateMessageID = ''<1@localhost>'',
      mapToMIMEHeader = (\<lambda>kvs. map_of (map (\<lambda>(k, v). (k, [v])) kvs)),
      ComposeToAdifString = (\<lambda>qs. Inr ''<eoh>''),
      now_stamp = ''20240102030405'',
      now_rfc1123z = ''Tue, 02 Jan 2024 03:04:05 +0000'',
      mw_boundary = ''b0'',
      quoted = (\<lambda>s. [CHR 0x22] @ s @ [CHR 0x22]),
      base64_encode = (\<lambda>s. ''PGVvaD4=''),
      range_order = header_keys,
      CreatePart = (\<lambda>n h. Inr (''--b0'' @ CRLF @ CRLF)),
      qp_Write = (\<lambda>s. Inr s),
      qp_Close = Inr [],
      part_Write = (\<lambda>n s. None),
      mw_Close = Inr (CRLF @ ''--b0--'' @ CRLF)\<rparr>"

definition env_reversed :: "unit composer_env" where
  "env_reversed = env_insertion\<lparr>range_order := rev header_keys\<rparr>"

definition st_from_empty :: Service where
  "st_from_empty =
     \<lparr>ConfigService = None, LoggerService = True,
      Config = Some (cfg_ipv6\<lparr>From := [], To := ''alice@example.com'', Subject := ''Subject'',
        Body := ''Body''\<rparr>),
      isInitialized = False, initOnce = False\<rparr>"

text \<open>
  The values the composer resolves: an explicit argument, trimmed, wins; a blank one is
  replaced by the field of the configuration as it stands.
\<close>

definition resolved :: "Service \<Rightarrow> (EmailConfig \<Rightarrow> string) \<Rightarrow> string \<Rightarrow> string" where
  "resolved s field arg =
     (if TrimSpace arg = [] then (case Config s of None \<Rightarrow> [] | Some cfg \<Rightarrow> field cfg)
      else TrimSpace arg)"

text \<open>The value printed for each key of the header map.\<close>

definition header_value ::
  "'q composer_env \<Rightarrow> string \<Rightarrow> string list \<Rightarrow> string \<Rightarrow> string \<Rightarrow> string"
where
  "header_value env from tos subject k =
     (if k = ''From'' then from
      else if k = ''To'' then Join tos '', ''
      else if k = ''Subject'' then subject
      else if k = ''Date'' then now_rfc1123z env
      else if k = ''Message-Id'' then generateMessageID env
      else if k = ''Mime-Version'' then ''1.0''
      else ''multipart/mixed; boundary='' @ quoted env (mw_boundary env))"

section \<open>Verification: strings, host and port\<close>

lemmas trim_eval = TrimSpace_def TrimLeft_def TrimRight_def leading_rune_def space_runes_def

lemma TrimSpace_Nil: "TrimSpace [] = []"
  by (simp add: TrimSpace_def TrimLeft_def TrimRight_def)

lemma IndexByte_None: "IndexByte s c = None \<longleftrightarrow> c \<notin> set s"
  by (induction s) auto

lemma IndexByte_append_fresh:
  "c \<notin> set xs \<Longrightarrow> IndexByte (xs @ c # ys) c = Some (length xs)"
  by (induction xs) auto

lemma LastIndexByte_append_fresh:
  "c \<notin> set ys \<Longrightarrow> LastIndexByte (xs @ c # ys) c = Some (length xs)"
  using IndexByte_append_fresh [of c "rev ys" "rev xs"]
  by (simp add: LastIndexByte_def)

lemma digit_char: "d < 10 \<Longrightarrow> ''0123456789'' ! d \<in> set ''0123456789''"
  by (rule nth_mem) simp

lemma show_nat_digits: "set (show_nat n) \<subseteq> set ''0123456789''"
proof (induction n rule: show_nat.induct)
  case (1 n)
  show ?case
  proof (cases "n < 10")
    case True
    then show ?thesis
      using digit_char [of n] by (subst show_nat.simps) simp
  next
    case False
    have "n mod 10 < 10" by simp
    then have "''0123456789'' ! (n mod 10) \<in> set ''0123456789''"
      by (rule digit_char)
    with False 1 show ?thesis
      by (subst show_nat.simps) simp
  qed
qed

lemma Itoa_digits: "0 \<le> n \<Longrightarrow> set (Itoa n) \<subseteq> set ''0123456789''"
  using show_nat_digits [of "nat n"] by (simp add: Itoa_def)

lemma Itoa_no_delims:
  assumes "0 \<le> n"
  shows "CHR '':'' \<notin> set (Itoa n)" "CHR ''['' \<notin> set (Itoa n)" "CHR '']'' \<notin> set (Itoa n)"
  using Itoa_digits [OF assms] by auto

lemma SplitHostPort_bracket_case:
  assumes "LastIndexByte a (CHR '':'') = Some i" "hd a = CHR ''[''"
    and "IndexByte a (CHR '']'') = Some e" "e + 1 = i" "e + 1 \<noteq> length a"
    and "CHR ''['' \<notin> set (drop 1 a)" "CHR '']'' \<notin> set (drop (e + 1) a)"
  shows "SplitHostPort a = Inr (take (e - 1) (drop 1 a), drop (i + 1) a)"
  using assms by (simp add: SplitHostPort_def IndexByte_None)

lemma SplitHostPort_plain_case:
  assumes "LastIndexByte a (CHR '':'') = Some i" "hd a \<noteq> CHR ''[''"
    and "CHR '':'' \<notin> set (take i a)"
    and "CHR ''['' \<notin> set a" "CHR '']'' \<notin> set a"
  shows "SplitHostPort a = Inr (take i a, drop (i + 1) a)"
  using assms by (simp add: SplitHostPort_def IndexByte_None)

lemma SplitHostPort_bracketed:
  assumes "CHR ''['' \<notin> set host" "CHR '']'' \<notin> set host"
    and "CHR '':'' \<notin> set port" "CHR ''['' \<notin> set port" "CHR '']'' \<notin> set port"
  shows "SplitHostPort (''['' @ host @ '']:'' @ port) = Inr (host, port)"
proof -
  let ?a = "''['' @ host @ '']:'' @ port"
  have last: "LastIndexByte ?a (CHR '':'') = Some (length host + 2)"
    using LastIndexByte_append_fresh [of "CHR '':''" port "''['' @ host @ '']''"] assms
    by simp
  have first: "IndexByte ?a (CHR '']'') = Some (length host + 1)"
    using IndexByte_append_fresh [of "CHR '']''" "''['' @ host" "'':'' @ port"] assms
    by simp
  have "SplitHostPort ?a =
      Inr (take (length host + 1 - 1) (drop 1 ?a), drop (length host + 2 + 1) ?a)"
    by (rule SplitHostPort_bracket_case [OF last _ first]) (use assms in simp_all)
  then show ?thesis by simp
qed

lemma SplitHostPort_plain:
  assumes "CHR '':'' \<notin> set host" "CHR ''['' \<notin> set host" "CHR '']'' \<notin> set host"
    and "CHR '':'' \<notin> set port" "CHR ''['' \<notin> set port" "CHR '']'' \<notin> set port"
  shows "SplitHostPort (host @ '':'' @ port) = Inr (host, port)"
proof -
  let ?a = "host @ '':'' @ port"
  have last: "LastIndexByte ?a (CHR '':'') = Some (length host)"
    using LastIndexByte_append_fresh [of "CHR '':''" port host] assms by simp
  have hd: "hd ?a \<noteq> CHR ''[''"
    using assms by (cases host) auto
  have "SplitHostPort ?a = Inr (take (length host) ?a, drop (length host + 1) ?a)"
    by (rule SplitHostPort_plain_case [OF last hd]) (use assms in simp_all)
  then show ?thesis by simp
qed

lemma SplitHostPort_JoinHostPort:
  assumes "CHR ''['' \<notin> set host" "CHR '']'' \<notin> set host"
    and "CHR '':'' \<notin> set port" "CHR ''['' \<notin> set port" "CHR '']'' \<notin> set port"
  shows "SplitHostPort (JoinHostPort host port) = Inr (host, port)"
  using assms SplitHostPort_bracketed [of host port] SplitHostPort_plain [of host port]
  by (simp add: JoinHostPort_def IndexByte_None)


lemma validateConfig_bracket_free_joinable:
  assumes "CHR ''['' \<notin> set (TrimSpace (Host cfg))" "CHR '']'' \<notin> set (TrimSpace (Host cfg))"
    and "port_accepted cfg"
  shows "joinable cfg"
proof -
  have "0 \<le> sint (Port cfg)"
    using assms(3) by (simp add: port_accepted_def)
  then have "SplitHostPort (JoinHostPort (TrimSpace (Host cfg)) (Itoa (sint (Port cfg)))) =
      Inr (TrimSpace (Host cfg), Itoa (sint (Port cfg)))"
    using assms(1,2) by (intro SplitHostPort_JoinHostPort Itoa_no_delims)
  then show ?thesis by (simp add: joinable_def)
qed

lemma validateConfig_host_empty:
  "TrimSpace (Host cfg) = [] \<Longrightarrow>
   validateConfig cfg op = Some (Wrapped op None ''email host cannot be empty'')"
  by (simp add: validateConfig_def)

lemma validateConfig_host_space:
  "TrimSpace (Host cfg) \<noteq> [] \<Longrightarrow> ContainsSpace (TrimSpace (Host cfg)) \<Longrightarrow>
   validateConfig cfg op = Some (Wrapped op None ''email host cannot contain spaces'')"
  by (simp add: validateConfig_def)

lemma validateConfig_port:
  "host_accepted cfg \<Longrightarrow> \<not> port_accepted cfg \<Longrightarrow>
   validateConfig cfg op = Some (Wrapped op None ''email port must be between 1 and 65535'')"
  by (auto simp: validateConfig_def host_accepted_def port_accepted_def)

lemma validateConfig_after_join:
  assumes "host_accepted cfg" "port_accepted cfg" "joinable cfg"
  shows "validateConfig cfg op =
     (if TrimSpace (From cfg) = [] then
        Some (Wrapped op None ''email from address cannot be empty'')
      else if TrimSpace (Username cfg) = [] \<and> TrimSpace (Password cfg) \<noteq> [] then
        Some (Wrapped op None ''email username must be set when password is provided'')
      else if TrimSpace (Password cfg) = [] \<and> TrimSpace (Username cfg) \<noteq> [] then
        Some (Wrapped op None ''email password must be set when username is provided'')
      else None)"
proof -
  obtain hp where "SplitHostPort
      (JoinHostPort (TrimSpace (Host cfg)) (Itoa (sint (Port cfg)))) = Inr hp"
    using assms(3)
    by (cases "SplitHostPort (JoinHostPort (TrimSpace (Host cfg)) (Itoa (sint (Port cfg))))")
      (auto simp: joinable_def)
  then show ?thesis
    using assms(1,2)
    by (simp add: validateConfig_def host_accepted_def port_accepted_def Let_def)
qed

lemma cfg_ipv6_host: "TrimSpace (Host cfg_ipv6) = ''2001:db8::1''"
  by (simp add: cfg_ipv6_def trim_eval)

lemma cfg_ipv6_from: "TrimSpace (From cfg_ipv6) = ''from@example.com''"
  by (simp add: cfg_ipv6_def trim_eval)

section \<open>Verification: the validator\<close>

text \<open>
  C9 (amended). \<open>validateConfig\<close> trims the host, the from address, the user name and
  the password before it looks at them, applies its checks in the order host non-empty,
  host without a space, port in 1..65535, host and port joinable, from non-empty, user
  name and password both set or both unset, and returns the first violated rule with its
  own message. A configuration whose trimmed host contains a colon and no bracket, and
  which violates no other rule, passes. The rule on spaces speaks of the host after
  trimming: leading and trailing white space never fails it.
\<close>

theorem validateConfig_first_violated_rule:
  "(TrimSpace (Host cfg) = [] \<longrightarrow>
      validateConfig cfg op = Some (Wrapped op None ''email host cannot be empty''))
   \<and> (TrimSpace (Host cfg) \<noteq> [] \<and> ContainsSpace (TrimSpace (Host cfg)) \<longrightarrow>
      validateConfig cfg op = Some (Wrapped op None ''email host cannot contain spaces''))
   \<and> (host_accepted cfg \<and> (sint (Port cfg) \<le> 0 \<or> 65535 < sint (Port cfg)) \<longrightarrow>
      validateConfig cfg op =
        Some (Wrapped op None ''email port must be between 1 and 65535''))
   \<and> (host_accepted cfg \<and> port_accepted cfg \<and> joinable cfg \<and>
      TrimSpace (From cfg) = [] \<longrightarrow>
      validateConfig cfg op =
        Some (Wrapped op None ''email from address cannot be empty''))
   \<and> (host_accepted cfg \<and> port_accepted cfg \<and> joinable cfg \<and>
      TrimSpace (From cfg) \<noteq> [] \<and>
      TrimSpace (Username cfg) = [] \<and> TrimSpace (Password cfg) \<noteq> [] \<longrightarrow>
      validateConfig cfg op =
        Some (Wrapped op None ''email username must be set when password is provided''))
   \<and> (host_accepted cfg \<and> port_accepted cfg \<and> joinable cfg \<and>
      TrimSpace (From cfg) \<noteq> [] \<and>
      TrimSpace (Password cfg) = [] \<and> TrimSpace (Username cfg) \<noteq> [] \<longrightarrow>
      validateConfig cfg op =
        Some (Wrapped op None ''email password must be set when username is provided''))
   \<and> (host_accepted cfg \<and> CHR '':'' \<in> set (TrimSpace (Host cfg)) \<and>
      CHR ''['' \<notin> set (TrimSpace (Host cfg)) \<and> CHR '']'' \<notin> set (TrimSpace (Host cfg)) \<and>
      port_accepted cfg \<and> TrimSpace (From cfg) \<noteq> [] \<and>
      (TrimSpace (Username cfg) = [] \<longleftrightarrow> TrimSpace (Password cfg) = []) \<longrightarrow>
      validateConfig cfg op = None)"
proof (intro conjI impI)
  assume "TrimSpace (Host cfg) = []"
  then show "validateConfig cfg op = Some (Wrapped op None ''email host cannot be empty'')"
    by (rule validateConfig_host_empty)
next
  assume "TrimSpace (Host cfg) \<noteq> [] \<and> ContainsSpace (TrimSpace (Host cfg))"
  then show "validateConfig cfg op =
      Some (Wrapped op None ''email host cannot contain spaces'')"
    by (simp add: validateConfig_host_space)
next
  assume "host_accepted cfg \<and> (sint (Port cfg) \<le> 0 \<or> 65535 < sint (Port cfg))"
  then have "host_accepted cfg" "\<not> port_accepted cfg"
    by (auto simp: port_accepted_def)
  then show "validateConfig cfg op =
      Some (Wrapped op None ''email port must be between 1 and 65535'')"
    by (rule validateConfig_port)
next
  assume "host_accepted cfg \<and> port_accepted cfg \<and> joinable cfg \<and>
      TrimSpace (From cfg) = []"
  then show "validateConfig cfg op =
      Some (Wrapped op None ''email from address cannot be empty'')"
    by (simp add: validateConfig_after_join)
next
  assume "host_accepted cfg \<and> port_accepted cfg \<and> joinable cfg \<and>
      TrimSpace (From cfg) \<noteq> [] \<and>
      TrimSpace (Username cfg) = [] \<and> TrimSpace (Password cfg) \<noteq> []"
  then show "validateConfig cfg op =
      Some (Wrapped op None ''email username must be set when password is provided'')"
    by (simp add: validateConfig_after_join)
next
  assume "host_accepted cfg \<and> port_accepted cfg \<and> joinable cfg \<and>
      TrimSpace (From cfg) \<noteq> [] \<and>
      TrimSpace (Password cfg) = [] \<and> TrimSpace (Username cfg) \<noteq> []"
  then show "validateConfig cfg op =
      Some (Wrapped op None ''email password must be set when username is provided'')"
    by (simp add: validateConfig_after_join)
next
  assume a: "host_accepted cfg \<and> CHR '':'' \<in> set (TrimSpace (Host cfg)) \<and>
      CHR ''['' \<notin> set (TrimSpace (Host cfg)) \<and> CHR '']'' \<notin> set (TrimSpace (Host cfg)) \<and>
      port_accepted cfg \<and> TrimSpace (From cfg) \<noteq> [] \<and>
      (TrimSpace (Username cfg) = [] \<longleftrightarrow> TrimSpace (Password cfg) = [])"
  then have "joinable cfg"
    by (simp add: validateConfig_bracket_free_joinable)
  with a show "validateConfig cfg op = None"
    by (simp add: validateConfig_after_join)
qed

text \<open>
  One configuration for every rule: the IPv6 configuration of the package's test passes,
  and each change of one field fails with the message of its rule.
\<close>

theorem validateConfig_first_violated_rule_witness:
  "validateConfig cfg_ipv6 ''op'' = None
   \<and> validateConfig (cfg_ipv6\<lparr>Host := []\<rparr>) ''op'' =
       Some (Wrapped ''op'' None ''email host cannot be empty'')
   \<and> validateConfig (cfg_ipv6\<lparr>Host := ''mail example.com''\<rparr>) ''op'' =
       Some (Wrapped ''op'' None ''email host cannot contain spaces'')
   \<and> validateConfig (cfg_ipv6\<lparr>Port := 65536\<rparr>) ''op'' =
       Some (Wrapped ''op'' None ''email port must be between 1 and 65535'')
   \<and> validateConfig (cfg_ipv6\<lparr>From := []\<rparr>) ''op'' =
       Some (Wrapped ''op'' None ''email from address cannot be empty'')
   \<and> validateConfig (cfg_ipv6\<lparr>Password := ''secret''\<rparr>) ''op'' =
       Some (Wrapped ''op'' None ''email username must be set when password is provided'')
   \<and> validateConfig (cfg_ipv6\<lparr>Username := ''user''\<rparr>) ''op'' =
       Some (Wrapped ''op'' None ''email password must be set when username is provided'')"
proof -
  note r = validateConfig_first_violated_rule
  note ev = cfg_ipv6_def ContainsSpace_def trim_eval host_accepted_def port_accepted_def
  note evj = joinable_def JoinHostPort_def SplitHostPort_def LastIndexByte_def Itoa_def
    show_nat.simps
  have j: "joinable cfg_ipv6"
    by (simp add: ev evj)
  have h: "host_accepted cfg_ipv6" "port_accepted cfg_ipv6"
    by (simp_all add: ev)
  have c0: "validateConfig cfg_ipv6 ''op'' = None"
    by (rule r [of cfg_ipv6, THEN conjunct2, THEN conjunct2, THEN conjunct2,
          THEN conjunct2, THEN conjunct2, THEN conjunct2, THEN mp])
      (simp add: ev)
  have c1: "validateConfig (cfg_ipv6\<lparr>Host := []\<rparr>) ''op'' =
       Some (Wrapped ''op'' None ''email host cannot be empty'')"
    by (rule r [THEN conjunct1, THEN mp]) (simp add: ev)
  have c2: "validateConfig (cfg_ipv6\<lparr>Host := ''mail example.com''\<rparr>) ''op'' =
       Some (Wrapped ''op'' None ''email host cannot contain spaces'')"
    by (rule r [THEN conjunct2, THEN conjunct1, THEN mp]) (simp add: ev)
  have c3: "validateConfig (cfg_ipv6\<lparr>Port := 65536\<rparr>) ''op'' =
       Some (Wrapped ''op'' None ''email port must be between 1 and 65535'')"
    by (rule r [THEN conjunct2, THEN conjunct2, THEN conjunct1, THEN mp]) (simp add: ev)
  have c4: "validateConfig (cfg_ipv6\<lparr>From := []\<rparr>) ''op'' =
       Some (Wrapped ''op'' None ''email from address cannot be empty'')"
    by (rule r [THEN conjunct2, THEN conjunct2, THEN conjunct2, THEN conjunct1, THEN mp])
      (use j h in \<open>simp add: ev joinable_def\<close>)
  have c5: "validateConfig (cfg_ipv6\<lparr>Password := ''secret''\<rparr>) ''op'' =
       Some (Wrapped ''op'' None ''email username must be set when password is provided'')"
    by (rule r [THEN conjunct2, THEN conjunct2, THEN conjunct2, THEN conjunct2,
          THEN conjunct1, THEN mp])
      (use j h in \<open>simp add: ev joinable_def\<close>)
  have c6: "validateConfig (cfg_ipv6\<lparr>Username := ''user''\<rparr>) ''op'' =
       Some (Wrapped ''op'' None ''email password must be set when username is provided'')"
    by (rule r [THEN conjunct2, THEN conjunct2, THEN conjunct2, THEN conjunct2,
          THEN conjunct2, THEN conjunct1, THEN mp])
      (use j h in \<open>simp add: ev joinable_def\<close>)
  from c0 c1 c2 c3 c4 c5 c6 show ?thesis by blast
qed

text \<open>
  The claim as first stated fails: a host with a leading space contains a space
  character and is accepted, because the space is trimmed before the check.
\<close>

theorem validateConfig_space_counterexample:
  "ContainsSpace (Host (cfg_ipv6\<lparr>Host := '' mail.example.com''\<rparr>)) \<and>
   validateConfig (cfg_ipv6\<lparr>Host := '' mail.example.com''\<rparr>) ''op'' = None"
  by (simp add: validateConfig_def cfg_ipv6_def ContainsSpace_def trim_eval
      JoinHostPort_def SplitHostPort_def LastIndexByte_def Itoa_def show_nat.simps)

section \<open>Verification: sending with retries\<close>

lemma sint_of_nat_64: "n < 2 ^ 63 \<Longrightarrow> sint (of_nat n :: 64 word) = int n"
  by (simp add: signed_of_nat signed_take_bit_int_eq_self)

lemma sle_max: "(a :: 64 word) \<le>s 0x7FFFFFFFFFFFFFFF"
  using sint_lt [of a] by (simp add: word_sle_eq)

lemma sle_of_nat_64:
  "i < 2 ^ 63 \<Longrightarrow> n < 2 ^ 63 \<Longrightarrow> ((of_nat i :: 64 word) \<le>s of_nat n) = (i \<le> n)"
  by (simp add: word_sle_eq sint_of_nat_64)

lemma sless_of_nat_64:
  "i < 2 ^ 63 \<Longrightarrow> (0 <s (of_nat i :: 64 word)) = (0 < i)"
  by (simp add: word_sless_alt sint_of_nat_64)

lemma retry_loop_exit:
  assumes "n < i" "i < 2 ^ 63"
  shows "retry_loop tr e (of_nat n) delay (of_nat i) calls lastErr evs = Some (lastErr, evs)"
  using assms by (subst retry_loop.simps) (simp add: sle_of_nat_64)

lemma retry_loop_fail_step:
  assumes "i \<le> n" "n < 2 ^ 63" "transport_result tr i e = Some err"
  shows "retry_loop tr e (of_nat n) delay (of_nat i) i lastErr evs =
     retry_loop tr e (of_nat n) delay (of_nat (Suc i)) (Suc i) (Some err)
       (evs @ failed_attempt e delay (\<lambda>_. err) i)"
  using assms
  by (subst retry_loop.simps)
    (simp add: sle_of_nat_64 sless_of_nat_64 failed_attempt_def sleep_before_def
      transport_call_def transport_result_def Let_def add.commute)

lemma retry_loop_success_step:
  assumes "i \<le> n" "n < 2 ^ 63" "transport_result tr i e = None"
  shows "retry_loop tr e (of_nat n) delay (of_nat i) i lastErr evs =
     Some (None, evs @ successful_attempt e delay i)"
  using assms
  by (subst retry_loop.simps)
    (simp add: sle_of_nat_64 sless_of_nat_64 successful_attempt_def sleep_before_def
      transport_call_def transport_result_def Let_def)

lemma failed_attempt_cong:
  "errs i = err \<Longrightarrow> failed_attempt e delay (\<lambda>_. err) i = failed_attempt e delay errs i"
  by (simp add: failed_attempt_def)

lemma retry_loop_all_fail:
  assumes fail: "\<forall>k. transport_result tr k e = Some (errs k)"
    and n: "Suc n < 2 ^ 63"
  shows "i \<le> n \<Longrightarrow>
     retry_loop tr e (of_nat n) delay (of_nat i) i lastErr evs =
       Some (Some (errs n), evs @ concat (map (failed_attempt e delay errs) [i..<Suc n]))"
proof (induction "n - i" arbitrary: i lastErr evs)
  case 0
  then have i: "i = n" by simp
  have "retry_loop tr e (of_nat n) delay (of_nat n) n lastErr evs =
      retry_loop tr e (of_nat n) delay (of_nat (Suc n)) (Suc n) (Some (errs n))
        (evs @ failed_attempt e delay (\<lambda>_. errs n) n)"
    using fail n by (intro retry_loop_fail_step) simp_all
  also have "\<dots> = Some (Some (errs n), evs @ failed_attempt e delay (\<lambda>_. errs n) n)"
    using n by (intro retry_loop_exit) simp_all
  finally show ?case
    by (simp add: i failed_attempt_cong)
next
  case (Suc d)
  then have lt: "i < n" and d: "d = n - Suc i" by simp_all
  have "retry_loop tr e (of_nat n) delay (of_nat i) i lastErr evs =
      retry_loop tr e (of_nat n) delay (of_nat (Suc i)) (Suc i) (Some (errs i))
        (evs @ failed_attempt e delay (\<lambda>_. errs i) i)"
    using fail n lt by (intro retry_loop_fail_step) simp_all
  also have "\<dots> = Some (Some (errs n),
      (evs @ failed_attempt e delay (\<lambda>_. errs i) i) @
      concat (map (failed_attempt e delay errs) [Suc i..<Suc n]))"
    using Suc.hyps(1) [OF d] lt by simp
  finally show ?case
    using lt by (simp add: upt_conv_Cons failed_attempt_cong)
qed

lemma retry_loop_first_success:
  assumes fail: "\<forall>j<k. transport_result tr j e = Some (errs j)"
    and ok: "transport_result tr k e = None"
    and n: "k \<le> n" "n < 2 ^ 63"
  shows "i \<le> k \<Longrightarrow>
     retry_loop tr e (of_nat n) delay (of_nat i) i lastErr evs =
       Some (None, evs @ concat (map (failed_attempt e delay errs) [i..<k]) @
         successful_attempt e delay k)"
proof (induction "k - i" arbitrary: i lastErr evs)
  case 0
  then have i: "i = k" by simp
  show ?case
    using ok n by (simp add: i retry_loop_success_step)
next
  case (Suc d)
  then have lt: "i < k" and d: "d = k - Suc i" by simp_all
  have "retry_loop tr e (of_nat n) delay (of_nat i) i lastErr evs =
      retry_loop tr e (of_nat n) delay (of_nat (Suc i)) (Suc i) (Some (errs i))
        (evs @ failed_attempt e delay (\<lambda>_. errs i) i)"
    using fail n lt by (intro retry_loop_fail_step) simp_all
  also have "\<dots> = Some (None,
      (evs @ failed_attempt e delay (\<lambda>_. errs i) i) @
      concat (map (failed_attempt e delay errs) [Suc i..<k]) @ successful_attempt e delay k)"
    using Suc.hyps(1) [OF d] lt by simp
  finally show ?case
    using lt by (simp add: upt_conv_Cons failed_attempt_cong)
qed

lemma retry_loop_never_returns:
  assumes "retry_loop tr e retries delay attempt calls lastErr evs = Some y"
  shows "\<not> (retries = 0x7FFFFFFFFFFFFFFF \<and> (\<forall>k. transport_result tr k e \<noteq> None))"
proof (rule retry_loop.raw_induct
    [where P = "\<lambda>tr e retries delay attempt calls lastErr evs y.
       \<not> (retries = 0x7FFFFFFFFFFFFFFF \<and> (\<forall>k. transport_result tr k e \<noteq> None))",
     rotated, OF assms], goal_cases)
  case (1 loop tr e retries delay attempt calls lastErr evs y)
  show ?case
  proof
    assume a: "retries = 0x7FFFFFFFFFFFFFFF \<and> (\<forall>k. transport_result tr k e \<noteq> None)"
    then obtain err where
      "tr calls (env_addr e) (env_auth e) (env_from e) (env_to e) (env_msg e) = Some err"
      by (auto simp: transport_result_def)
    with 1(2) a obtain evs' where
      "loop tr e retries delay (attempt + 1) (Suc calls) (Some err) evs' = Some y"
      by (simp add: sle_max Let_def)
    from 1(1) [OF this] a show False by simp
  qed
qed


lemma of_nat_retry_count:
  "of_nat (retry_count cfg) = (if SmtpRetryCount cfg <s 0 then 0 else SmtpRetryCount cfg)"
  by (simp add: retry_count_def word_sless_alt)

lemma retry_count_bound: "retry_count cfg < 2 ^ 63"
  using sint_lt [of "SmtpRetryCount cfg"] by (simp add: retry_count_def)

lemma Send_enabled:
  assumes "isInitialized (service st)" "Config (service st) = Some cfg" "Enabled cfg"
    and "resolved_from cfg email \<noteq> []"
  shows "Send tr st email =
     (case retry_loop tr (envelope_of cfg email) (of_nat (retry_count cfg)) (retry_delay cfg)
             0 0 None [] of
        None \<Rightarrow> None
      | Some (lastErr, evs) \<Rightarrow>
          (case lastErr of
             Some err \<Rightarrow>
               Some (st, Returns (Some (Wrapped op_Send (Some err) ''failed to send email'')),
                 evs)
           | None \<Rightarrow> Some (st, Returns None, evs)))"
  using assms
  by (simp add: Send_def Let_def resolved_from_def envelope_of_def retry_delay_def
      of_nat_retry_count)

lemma transport_calls_Nil [simp]: "transport_calls [] = 0"
  by (simp add: transport_calls_def)

lemma transport_calls_append [simp]:
  "transport_calls (xs @ ys) = transport_calls xs + transport_calls ys"
  by (simp add: transport_calls_def)

lemma transport_calls_failed_attempt [simp]:
  "transport_calls (failed_attempt e delay errs i) = 1"
  by (simp add: transport_calls_def failed_attempt_def sleep_before_def transport_call_def)

lemma transport_calls_successful_attempt [simp]:
  "transport_calls (successful_attempt e delay i) = 1"
  by (simp add: transport_calls_def successful_attempt_def sleep_before_def
      transport_call_def)

lemma transport_calls_failed_attempts:
  "transport_calls (concat (map (failed_attempt e delay errs) [i..<j])) = j - i"
proof (induction j)
  case 0
  then show ?case by simp
next
  case (Suc j)
  then show ?case
    by (cases "i \<le> j") simp_all
qed

lemma Send_all_fail:
  assumes "isInitialized (service st)" "Config (service st) = Some cfg" "Enabled cfg"
    and "resolved_from cfg email \<noteq> []"
    and "retry_count cfg < 2 ^ 63 - 1"
    and "\<forall>k. transport_result tr k (envelope_of cfg email) = Some (errs k)"
  shows "Send tr st email =
     Some (st,
       Returns (Some (Wrapped op_Send (Some (errs (retry_count cfg))) ''failed to send email'')),
       concat (map (failed_attempt (envelope_of cfg email) (retry_delay cfg) errs)
         [0..<Suc (retry_count cfg)]))"
proof -
  have "Suc (retry_count cfg) < 2 ^ 63"
    using assms(5) by simp
  from retry_loop_all_fail [OF assms(6) this, of 0 "retry_delay cfg" None "[]"]
  show ?thesis
    by (simp add: Send_enabled [OF assms(1-4)])
qed

lemma Send_first_success:
  assumes "isInitialized (service st)" "Config (service st) = Some cfg" "Enabled cfg"
    and "resolved_from cfg email \<noteq> []"
    and "k \<le> retry_count cfg"
    and "\<forall>j<k. transport_result tr j (envelope_of cfg email) = Some (errs j)"
    and "transport_result tr k (envelope_of cfg email) = None"
  shows "Send tr st email =
     Some (st, Returns None,
       concat (map (failed_attempt (envelope_of cfg email) (retry_delay cfg) errs) [0..<k]) @
       successful_attempt (envelope_of cfg email) (retry_delay cfg) k)"
proof -
  from retry_loop_first_success
    [OF assms(6,7,5) retry_count_bound, of 0 "retry_delay cfg" None "[]"]
  show ?thesis
    by (simp add: Send_enabled [OF assms(1-4)])
qed

lemma Send_never_returns:
  assumes "isInitialized (service st)" "Config (service st) = Some cfg" "Enabled cfg"
    and "resolved_from cfg email \<noteq> []"
    and "SmtpRetryCount cfg = 0x7FFFFFFFFFFFFFFF"
    and "\<forall>k. transport_result tr k (envelope_of cfg email) \<noteq> None"
  shows "Send tr st email = None"
proof -
  have r: "of_nat (retry_count cfg) = (0x7FFFFFFFFFFFFFFF :: 64 word)"
    using assms(5) by (simp add: of_nat_retry_count word_sless_alt)
  have "retry_loop tr (envelope_of cfg email) (of_nat (retry_count cfg)) (retry_delay cfg)
      0 0 None [] = None"
  proof (cases "retry_loop tr (envelope_of cfg email) (of_nat (retry_count cfg))
      (retry_delay cfg) 0 0 None []")
    case None
    then show ?thesis .
  next
    case (Some y)
    from retry_loop_never_returns [OF this] r assms(6) show ?thesis by simp
  qed
  then show ?thesis
    by (simp add: Send_enabled [OF assms(1-4)])
qed

text \<open>
  C4 (amended). For an initialized, enabled configuration with a resolved sender and
  retry count \<open>N\<close> (floored at 0) below the largest \<open>int\<close>, and a transport that fails
  on every attempt, \<open>Send\<close> calls the transport exactly \<open>N + 1\<close> times, sleeps for the
  delay (floored at zero, skipped when zero) before every attempt after the first, logs
  and discards the intermediate errors, and returns the error of the last attempt wrapped
  with a summary message. If attempt \<open>k \<le> N\<close> is the first to succeed, the loop stops
  there: \<open>k + 1\<close> calls, and \<open>Send\<close> returns success.
\<close>

theorem Send_retry_attempts:
  assumes "isInitialized (service st)" and "Config (service st) = Some cfg"
    and "Enabled cfg" and "resolved_from cfg email \<noteq> []"
  shows
    "(retry_count cfg < 2 ^ 63 - 1 \<and>
      (\<forall>k. transport_result tr k (envelope_of cfg email) = Some (errs k)) \<longrightarrow>
        Send tr st email =
          Some (st,
            Returns (Some (Wrapped op_Send (Some (errs (retry_count cfg)))
              ''failed to send email'')),
            concat (map (failed_attempt (envelope_of cfg email) (retry_delay cfg) errs)
              [0..<Suc (retry_count cfg)])) \<and>
        transport_calls
          (concat (map (failed_attempt (envelope_of cfg email) (retry_delay cfg) errs)
            [0..<Suc (retry_count cfg)])) = retry_count cfg + 1)
     \<and> (k \<le> retry_count cfg \<and>
      (\<forall>j<k. transport_result tr j (envelope_of cfg email) = Some (errs j)) \<and>
      transport_result tr k (envelope_of cfg email) = None \<longrightarrow>
        Send tr st email =
          Some (st, Returns None,
            concat (map (failed_attempt (envelope_of cfg email) (retry_delay cfg) errs)
              [0..<k]) @
            successful_attempt (envelope_of cfg email) (retry_delay cfg) k) \<and>
        transport_calls
          (concat (map (failed_attempt (envelope_of cfg email) (retry_delay cfg) errs)
              [0..<k]) @
            successful_attempt (envelope_of cfg email) (retry_delay cfg) k) = k + 1)"
proof (intro conjI impI)
  assume "retry_count cfg < 2 ^ 63 - 1 \<and>
      (\<forall>k. transport_result tr k (envelope_of cfg email) = Some (errs k))"
  then show "Send tr st email =
      Some (st,
        Returns (Some (Wrapped op_Send (Some (errs (retry_count cfg)))
          ''failed to send email'')),
        concat (map (failed_attempt (envelope_of cfg email) (retry_delay cfg) errs)
          [0..<Suc (retry_count cfg)]))"
    using assms by (intro Send_all_fail) simp_all
next
  assume "k \<le> retry_count cfg \<and>
      (\<forall>j<k. transport_result tr j (envelope_of cfg email) = Some (errs j)) \<and>
      transport_result tr k (envelope_of cfg email) = None"
  then show "Send tr st email =
      Some (st, Returns None,
        concat (map (failed_attempt (envelope_of cfg email) (retry_delay cfg) errs)
          [0..<k]) @
        successful_attempt (envelope_of cfg email) (retry_delay cfg) k)"
    using assms by (intro Send_first_success) simp_all
qed (simp_all add: transport_calls_failed_attempts)

lemma st_ready_hyps:
  "isInitialized (service (st_ready cfg))" "Config (service (st_ready cfg)) = Some cfg"
  by (simp_all add: st_ready_def)

lemma resolved_from_msg_hi: "resolved_from cfg msg_hi = ''from@example.com''"
  by (simp add: resolved_from_def msg_hi_def trim_eval)

text \<open>
  The configuration of the package's retry test (two retries), with a delay of one
  second: three calls when every attempt fails, three when the third succeeds.
\<close>

theorem Send_retry_attempts_witness:
  "Send always_failing (st_ready cfg_smtp) msg_hi =
     Some (st_ready cfg_smtp,
       Returns (Some (Wrapped op_Send (Some (Plain ''temporary'')) ''failed to send email'')),
       concat (map (failed_attempt (envelope_of cfg_smtp msg_hi) (retry_delay cfg_smtp)
         (\<lambda>k. Plain ''temporary'')) [0..<3]))
   \<and> transport_calls
       (concat (map (failed_attempt (envelope_of cfg_smtp msg_hi) (retry_delay cfg_smtp)
         (\<lambda>k. Plain ''temporary'')) [0..<3])) = 3
   \<and> Send fails_twice (st_ready cfg_smtp) msg_hi =
     Some (st_ready cfg_smtp, Returns None,
       concat (map (failed_attempt (envelope_of cfg_smtp msg_hi) (retry_delay cfg_smtp)
         (\<lambda>k. Plain ''temporary'')) [0..<2]) @
       successful_attempt (envelope_of cfg_smtp msg_hi) (retry_delay cfg_smtp) 2)
   \<and> retry_delay cfg_smtp = Second"
proof -
  have en: "Enabled cfg_smtp" and rc: "retry_count cfg_smtp = 2"
    by (simp_all add: cfg_smtp_def retry_count_def)
  have fr: "resolved_from cfg_smtp msg_hi \<noteq> []"
    by (simp add: resolved_from_msg_hi)
  note t = Send_retry_attempts [OF st_ready_hyps en fr,
      where errs = "\<lambda>k. Plain ''temporary''" and k = 2]
  have a: "Send always_failing (st_ready cfg_smtp) msg_hi =
     Some (st_ready cfg_smtp,
       Returns (Some (Wrapped op_Send (Some (Plain ''temporary'')) ''failed to send email'')),
       concat (map (failed_attempt (envelope_of cfg_smtp msg_hi) (retry_delay cfg_smtp)
         (\<lambda>k. Plain ''temporary'')) [0..<3]))
   \<and> transport_calls
       (concat (map (failed_attempt (envelope_of cfg_smtp msg_hi) (retry_delay cfg_smtp)
         (\<lambda>k. Plain ''temporary'')) [0..<3])) = 3"
    using t [where tr = always_failing, THEN conjunct1]
    by (simp add: rc transport_result_def always_failing_def)
  have b: "Send fails_twice (st_ready cfg_smtp) msg_hi =
     Some (st_ready cfg_smtp, Returns None,
       concat (map (failed_attempt (envelope_of cfg_smtp msg_hi) (retry_delay cfg_smtp)
         (\<lambda>k. Plain ''temporary'')) [0..<2]) @
       successful_attempt (envelope_of cfg_smtp msg_hi) (retry_delay cfg_smtp) 2)"
    using t [where tr = fails_twice, THEN conjunct2]
    by (simp add: rc transport_result_def fails_twice_def)
  have c: "retry_delay cfg_smtp = Second"
    by (simp add: retry_delay_def cfg_smtp_def Second_def word_sle_eq)
  from a b c show ?thesis by simp
qed

text \<open>
  The claim as first stated fails at the largest retry count: the loop test
  \<open>attempt <= retries\<close> is then always true, the counter wraps around, and with a
  transport that always fails \<open>Send\<close> never returns.
\<close>

theorem Send_max_retries_counterexample:
  "isInitialized (service (st_ready (cfg_smtp\<lparr>SmtpRetryCount := 0x7FFFFFFFFFFFFFFF\<rparr>)))
   \<and> Enabled (cfg_smtp\<lparr>SmtpRetryCount := 0x7FFFFFFFFFFFFFFF\<rparr>)
   \<and> Send always_failing (st_ready (cfg_smtp\<lparr>SmtpRetryCount := 0x7FFFFFFFFFFFFFFF\<rparr>))
       msg_hi = None"
proof -
  have "Send always_failing (st_ready (cfg_smtp\<lparr>SmtpRetryCount := 0x7FFFFFFFFFFFFFFF\<rparr>))
       msg_hi = None"
    by (rule Send_never_returns [OF st_ready_hyps])
      (simp_all add: resolved_from_msg_hi cfg_smtp_def transport_result_def
        always_failing_def)
  then show ?thesis
    by (simp add: st_ready_def cfg_smtp_def)
qed

text \<open>
  C8. On an initialized service whose configuration is disabled, \<open>Send\<close> makes no call of
  the transport, hands one warning to the logger and returns success, whatever the
  message.
\<close>

theorem Send_disabled_no_attempt:
  "isInitialized (service st) \<Longrightarrow> Config (service st) = Some cfg \<Longrightarrow> \<not> Enabled cfg \<Longrightarrow>
   Send tr st email =
     Some (st, Returns None, [WarnLog ''email service is disabled in the config'']) \<and>
   transport_calls [WarnLog ''email service is disabled in the config''] = 0"
  by (simp add: Send_def Let_def transport_calls_def)

theorem Send_disabled_no_attempt_witness:
  "Send always_failing (st_ready (cfg_smtp\<lparr>Enabled := False\<rparr>)) msg_hi =
     Some (st_ready (cfg_smtp\<lparr>Enabled := False\<rparr>), Returns None,
       [WarnLog ''email service is disabled in the config''])"
  using Send_disabled_no_attempt [OF st_ready_hyps, of "cfg_smtp\<lparr>Enabled := False\<rparr>"]
  by (simp add: cfg_smtp_def)

text \<open>
  C10. Whatever \<open>Send\<close> returns (success, a failure after the retries, the error of an
  uninitialized service or of an empty sender, or a panic), the state after the call is
  the state before it: configuration, initialization flag and dial timeout.
\<close>

theorem Send_state_unchanged:
  "Send tr st email = Some (st', r, evs) \<Longrightarrow> st' = st"
  by (auto simp: Send_def Let_def split: if_splits option.splits prod.splits)

text \<open>
  Four calls that return: every attempt fails, the third attempt succeeds, the service
  is not initialized, the sender comes from the configuration.
\<close>

theorem Send_state_unchanged_witness:
  "fst (the (Send always_failing (st_ready cfg_smtp) msg_hi)) = st_ready cfg_smtp
   \<and> fst (the (Send fails_twice (st_ready cfg_smtp) msg_hi)) = st_ready cfg_smtp
   \<and> fst (the (Send fails_twice st_no_logger msg_hi)) = st_no_logger
   \<and> fst (the (Send fails_twice (st_ready cfg_smtp)
        \<lparr>MsgFrom = [], MsgTo = [], Msg = []\<rparr>)) = st_ready cfg_smtp"
proof -
  have en: "Enabled cfg_smtp" and rc: "retry_count cfg_smtp < 2 ^ 63 - 1"
    "2 \<le> retry_count cfg_smtp"
    by (simp_all add: cfg_smtp_def retry_count_def)
  have fr: "resolved_from cfg_smtp msg_hi \<noteq> []"
    by (simp add: resolved_from_msg_hi)
  have fr': "resolved_from cfg_smtp \<lparr>MsgFrom = [], MsgTo = [], Msg = []\<rparr> \<noteq> []"
    by (simp add: resolved_from_def cfg_smtp_def trim_eval)
  obtain r1 evs1 where
    s1: "Send always_failing (st_ready cfg_smtp) msg_hi = Some (st_ready cfg_smtp, r1, evs1)"
    using Send_all_fail [OF st_ready_hyps en fr rc(1),
        where tr = always_failing and errs = "\<lambda>k. Plain ''temporary''"]
    by (simp add: transport_result_def always_failing_def)
  obtain r2 evs2 where
    s2: "Send fails_twice (st_ready cfg_smtp) msg_hi = Some (st_ready cfg_smtp, r2, evs2)"
    using Send_first_success [OF st_ready_hyps en fr rc(2),
        where tr = fails_twice and errs = "\<lambda>k. Plain ''temporary''"]
    by (simp add: transport_result_def fails_twice_def)
  obtain r3 evs3 where
    s3: "Send fails_twice st_no_logger msg_hi = Some (st_no_logger, r3, evs3)"
    by (simp add: Send_def st_no_logger_def)
  obtain r4 evs4 where
    s4: "Send fails_twice (st_ready cfg_smtp) \<lparr>MsgFrom = [], MsgTo = [], Msg = []\<rparr> =
      Some (st_ready cfg_smtp, r4, evs4)"
    using Send_first_success [OF st_ready_hyps en fr' rc(2),
        where tr = fails_twice and errs = "\<lambda>k. Plain ''temporary''"]
    by (simp add: transport_result_def fails_twice_def)
  show ?thesis
    using Send_state_unchanged [OF s1] Send_state_unchanged [OF s2]
      Send_state_unchanged [OF s3] Send_state_unchanged [OF s4]
    by (simp add: s1 s2 s3 s4)
qed

section \<open>Verification: the life cycle\<close>

lemma Initialize_failure_uninitialized:
  "\<not> isInitialized (service st) \<Longrightarrow> Initialize st = (st', Some err) \<Longrightarrow>
   \<not> isInitialized (service st') \<and> initOnce (service st')"
  by (auto simp: Initialize_def Let_def split: if_splits option.splits sum.splits)

lemma Initialize_after_failure:
  assumes "Initialize st = (st', Some err)"
  shows "Initialize st' = (st', None)"
proof -
  have "\<not> isInitialized (service st)"
    using assms by (auto simp: Initialize_def Let_def split: if_splits)
  then have "initOnce (service st')"
    using assms Initialize_failure_uninitialized by blast
  then show ?thesis
    by (simp add: Initialize_def Let_def)
qed

lemma Initialize_service_go_after_failure:
  assumes "Initialize_service_go st = (st', Returns (Some err))"
  shows "Initialize_service_go st' = (st', Returns None)"
proof -
  have "\<not> isInitialized (service st') \<and> initOnce (service st')"
    using assms
    by (auto simp: Initialize_service_go_def Let_def split: if_splits option.splits)
  then show ?thesis
    by (simp add: Initialize_service_go_def Let_def)
qed

text \<open>
  C6. The claim asks that a call after a failed first call reports the failure. The code
  does not: with no logger injected the first call returns the error, the second call
  returns nil although the service is still not initialized. Both revisions of
  \<open>Initialize\<close> behave so.
\<close>

theorem Initialize_failure_not_reported_again:
  "Initialize st_no_logger =
     (st_no_logger\<lparr>service := (service st_no_logger)\<lparr>initOnce := True\<rparr>\<rparr>,
      Some (Wrapped op_Initialize None ''logger service has not been set/injected''))
   \<and> Initialize (fst (Initialize st_no_logger)) = (fst (Initialize st_no_logger), None)
   \<and> \<not> isInitialized (service (fst (Initialize st_no_logger)))
   \<and> Initialize_service_go st_no_logger =
     (st_no_logger\<lparr>service := (service st_no_logger)\<lparr>initOnce := True\<rparr>\<rparr>,
      Returns (Some (Wrapped op_Initialize None ''logger service has not been set/injected'')))
   \<and> Initialize_service_go (fst (Initialize_service_go st_no_logger)) =
     (fst (Initialize_service_go st_no_logger), Returns None)"
  by (simp add: Initialize_def Initialize_service_go_def st_no_logger_def Let_def)

section \<open>Verification: the transport\<close>

lemma andThen_Some: "fst a = Some err \<Longrightarrow> andThen a b = a"
  by (simp add: andThen_def)

lemma andThen_None: "fst a = None \<Longrightarrow> andThen a b = (fst b, snd a @ snd b)"
  by (simp add: andThen_def)

lemma andThen_reach:
  "x \<in> set (snd (andThen a b)) \<Longrightarrow> x \<notin> set (snd a) \<Longrightarrow> fst a = None \<and> x \<in> set (snd b)"
  by (auto simp: andThen_def split: option.splits)

lemma andThen_ops:
  "x \<in> set (snd (andThen a b)) \<Longrightarrow> x \<in> set (snd a) \<or> x \<in> set (snd b)"
  by (auto simp: andThen_def split: option.splits)

lemma wrap_None [simp]: "wrap rv op None = None"
  by (simp add: wrap_def)

lemma wrap_eq_None [simp]: "wrap rv op r = None \<longleftrightarrow> r = None"
  by (simp add: wrap_def split: option.splits revision.splits)

lemma rcpt_loop_ops: "x \<in> set (snd (rcpt_loop rv p i to)) \<Longrightarrow> \<exists>a. x = Rcpt a"
proof (induction to arbitrary: i)
  case Nil
  then show ?case by simp
next
  case (Cons addr rest)
  from andThen_ops [OF Cons.prems [simplified]] Cons.IH show ?case
    by auto
qed

lemma sendWithClient_no_client:
  "new_client p = Some err \<Longrightarrow>
   fst (sendWithClient rv p hn host auth from to msg tls) \<noteq> None \<and>
   snd (sendWithClient rv p hn host auth from to msg tls) = [NewClient host, ConnClose]"
  by (simp add: sendWithClient_def split: revision.splits option.splits)

lemma sendWithClient_no_starttls:
  assumes "new_client p = None" "\<not> starttls_ext p"
  shows "sendWithClient rv p hn host auth from to msg False =
     (case hello p 0 of
        Some err \<Rightarrow>
          (wrap rv op_sendWithClient (Some err), [NewClient host, Hello hn, ClientClose])
      | None \<Rightarrow>
          (Some (tls_required rv),
           [NewClient host, Hello hn, Extension ''STARTTLS'', ClientClose]))"
  using assms
  by (simp add: sendWithClient_def andThen_def wrap_def split: option.splits revision.splits)

lemma sendWithClient_no_starttls_fails:
  assumes "\<not> starttls_ext p"
  shows "fst (sendWithClient rv p hn host auth from to msg False) \<noteq> None"
proof (cases "new_client p")
  case None
  then show ?thesis
    using assms
    by (simp add: sendWithClient_no_starttls wrap_def split: option.splits revision.splits)
next
  case (Some err)
  then show ?thesis by (simp add: sendWithClient_no_client)
qed

lemma sendWithClient_no_starttls_ops:
  assumes "\<not> starttls_ext p"
    and "x \<in> set (snd (sendWithClient rv p hn host auth from to msg False))"
  shows "\<not> payload_op x"
proof (cases "new_client p")
  case None
  then show ?thesis
    using assms by (auto simp: sendWithClient_no_starttls split: option.splits)
next
  case (Some err)
  then show ?thesis
    using assms(2) by (auto simp: sendWithClient_no_client)
qed

lemma tryImplicitTLS_events:
  "ev \<in> set (snd (tryImplicitTLS rv net timeout host addr auth from to msg)) \<Longrightarrow>
   ev = DialTLS timeout addr host \<or> (\<exists>x. ev = OverTLS x)"
  by (auto simp: tryImplicitTLS_def Let_def split: option.splits)

lemma tryStartTLS_events:
  "ev \<in> set (snd (tryStartTLS rv net timeout host addr auth from to msg)) \<Longrightarrow>
   ev = DialTCP timeout addr \<or>
   (\<exists>x. ev = OverTCP x \<and>
      x \<in> set (snd (sendWithClient rv (tcp_peer net) (local_hostname net) host auth from to
        msg False)))"
  by (auto simp: tryStartTLS_def Let_def split: option.splits)

lemma sendMailWithTLS_events:
  assumes "ev \<in> set (snd (sendMailWithTLS rv net timeout addr auth from to msg))"
  shows "\<exists>host.
     ev \<in> set (snd (tryImplicitTLS rv net timeout host addr auth from to msg)) \<or>
     ev \<in> set (snd (tryStartTLS rv net timeout host addr auth from to msg))"
  using assms
  by (auto simp: sendMailWithTLS_def Let_def split: sum.splits if_splits)

lemma sendMailWithTLS_plain_ops:
  assumes "\<not> starttls_ext (tcp_peer net)"
    and "OverTCP x \<in> set (snd (sendMailWithTLS rv net timeout addr auth from to msg))"
  shows "\<not> payload_op x"
proof -
  from sendMailWithTLS_events [OF assms(2)] obtain host where
    "OverTCP x \<in> set (snd (tryImplicitTLS rv net timeout host addr auth from to msg)) \<or>
     OverTCP x \<in> set (snd (tryStartTLS rv net timeout host addr auth from to msg))"
    by blast
  then have "x \<in> set (snd (sendWithClient rv (tcp_peer net) (local_hostname net) host auth
      from to msg False))"
    using tryImplicitTLS_events tryStartTLS_events by fastforce
  with assms(1) show ?thesis
    by (rule sendWithClient_no_starttls_ops)
qed

text \<open>
  C1. Over a connection that is not yet secured, when the server does not advertise
  STARTTLS: after the client and the \<open>Hello\<close> succeeded the session ends at once with the
  "TLS required" error, having issued nothing but \<open>Hello\<close> and the extension query; in
  every case the session fails and issues no AUTH, MAIL, RCPT or DATA call and writes no
  message; and within a whole delivery attempt nothing of the kind travels over the
  plain connection. Both revisions.
\<close>

theorem sendWithClient_tls_required:
  assumes "\<not> starttls_ext p"
  shows
    "(new_client p = None \<and> hello p 0 = None \<longrightarrow>
        sendWithClient rv p hn host auth from to msg False =
          (Some (tls_required rv),
           [NewClient host, Hello hn, Extension ''STARTTLS'', ClientClose]))
     \<and> fst (sendWithClient rv p hn host auth from to msg False) \<noteq> None
     \<and> (\<forall>x \<in> set (snd (sendWithClient rv p hn host auth from to msg False)).
          \<not> payload_op x)
     \<and> (tcp_peer net = p \<longrightarrow>
          (\<forall>x. OverTCP x \<in> set (snd (sendMailWithTLS rv net timeout addr auth from to msg))
             \<longrightarrow> \<not> payload_op x))"
  using assms sendWithClient_no_starttls_fails [of p rv hn host auth "from" to msg]
    sendWithClient_no_starttls_ops [of p _ rv hn host auth "from" to msg]
    sendMailWithTLS_plain_ops [of net _ rv timeout addr auth "from" to msg]
  by (auto simp: sendWithClient_no_starttls)


lemma rcpt_loop_quit_reply [simp]:
  "rcpt_loop rv (p\<lparr>quit_reply := q\<rparr>) i to = rcpt_loop rv p i to"
  by (induction to arbitrary: i) simp_all

lemma sendWithClient_data_closed:
  assumes w: "write_reply p = None" and c: "close_reply p = None"
    and reach: "CloseData \<in> set (snd (sendWithClient rv p hn host auth from to msg tls))"
  shows "sendWithClient rv p hn host auth from to msg tls =
     (None, butlast (butlast (snd (sendWithClient rv p hn host auth from to msg tls))) @
        [Quit, ClientClose])"
proof (cases "new_client p")
  case (Some err)
  with reach show ?thesis
    by (simp add: sendWithClient_no_client)
next
  case None
  define s1 where "s1 = (wrap rv op_sendWithClient (hello p 0), [Hello hn])"
  define s2 where "s2 =
     (if \<not> tls then
        andThen
          (if \<not> starttls_ext p then Some (tls_required rv) else None,
           [Extension ''STARTTLS''])
       (andThen (wrap rv op_sendWithClient (start_tls p), [StartTLS host])
          (wrap rv op_sendWithClient (hello p 1), [Hello hn]))
      else (None, []))"
  define s3 where "s3 =
     (case auth of
        None \<Rightarrow> (None, [])
      | Some a \<Rightarrow> (wrap rv op_sendWithClient (auth_reply p), [AuthCmd a]))"
  define s4 where "s4 = (mail_reply p, [Mail from])"
  define s5 where "s5 = rcpt_loop rv p 0 to"
  define s6 where "s6 = (data_reply p, [Data])"
  define s7 :: "error option \<times> smtp_op list" where "s7 = (None, [Write msg])"
  define s8 where "s8 = (wrap rv op_sendWithClient (close_reply p), [CloseData])"
  define s9 :: "error option \<times> smtp_op list" where
    "s9 = (case quit_reply p of Some err \<Rightarrow> None | None \<Rightarrow> None, [Quit])"
  define session where "session =
     andThen s1 (andThen s2 (andThen s3 (andThen s4 (andThen s5 (andThen s6
       (andThen s7 (andThen s8 s9)))))))"
  have unfold: "sendWithClient rv p hn host auth from to msg tls =
      (fst session, NewClient host # snd session @ [ClientClose])"
    using None w
    by (simp add: sendWithClient_def Let_def session_def s1_def s2_def s3_def s4_def s5_def
        s6_def s7_def s8_def s9_def split del: if_split cong: if_weak_cong)
  have in_session: "CloseData \<in> set (snd session)"
    using reach by (simp add: unfold)
  have n1: "CloseData \<notin> set (snd s1)" by (simp add: s1_def)
  have n2: "CloseData \<notin> set (snd s2)"
    by (auto simp: s2_def dest!: andThen_ops)
  have n3: "CloseData \<notin> set (snd s3)" by (simp add: s3_def split: option.splits)
  have n4: "CloseData \<notin> set (snd s4)" by (simp add: s4_def)
  have n5: "CloseData \<notin> set (snd s5)"
    using rcpt_loop_ops [of CloseData rv p 0 to] by (auto simp: s5_def)
  have n6: "CloseData \<notin> set (snd s6)" by (simp add: s6_def)
  have n7: "CloseData \<notin> set (snd s7)" by (simp add: s7_def)
  note r1 = andThen_reach [OF in_session [unfolded session_def] n1]
  note r2 = andThen_reach [OF r1 [THEN conjunct2] n2]
  note r3 = andThen_reach [OF r2 [THEN conjunct2] n3]
  note r4 = andThen_reach [OF r3 [THEN conjunct2] n4]
  note r5 = andThen_reach [OF r4 [THEN conjunct2] n5]
  note r6 = andThen_reach [OF r5 [THEN conjunct2] n6]
  note r7 = andThen_reach [OF r6 [THEN conjunct2] n7]
  have tail: "andThen s8 s9 = (None, [CloseData, Quit])"
    using c by (simp add: s8_def s9_def andThen_def split: option.splits)
  have "session = (None, snd s1 @ snd s2 @ snd s3 @ snd s4 @ snd s5 @ snd s6 @ snd s7 @
      [CloseData, Quit])"
    using r1 r2 r3 r4 r5 r6 r7
    by (simp add: session_def andThen_None tail)
  then show ?thesis
    by (simp add: unfold butlast_append)
qed

text \<open>
  C5. When the message was written and the data section was closed without error, the
  session returns success whatever \<open>Quit\<close> returns (\<open>quit_reply p\<close> is arbitrary), and
  \<open>Quit\<close> was issued. Both revisions, secured or upgraded connection.
\<close>

theorem sendWithClient_quit_failure_swallowed:
  assumes "write_reply p = None" and "close_reply p = None"
    and "CloseData \<in> set (snd (sendWithClient rv p hn host auth from to msg tls))"
  shows "fst (sendWithClient rv p hn host auth from to msg tls) = None
     \<and> Quit \<in> set (snd (sendWithClient rv p hn host auth from to msg tls))"
proof -
  have a: "sendWithClient rv p hn host auth from to msg tls =
     (None, butlast (butlast (snd (sendWithClient rv p hn host auth from to msg tls))) @
        [Quit, ClientClose])"
    using assms by (rule sendWithClient_data_closed)
  have "Quit \<in> set (snd (sendWithClient rv p hn host auth from to msg tls))"
    by (subst a) simp
  with a show ?thesis
    by (metis fst_conv)
qed

lemma sendWithClient_accepting:
  "sendWithClient rv (accepting_peer\<lparr>quit_reply := q\<rparr>) hn host (Some a) from [rcpt] msg True =
     (None, [NewClient host, Hello hn, AuthCmd a, Mail from, Rcpt rcpt, Data, Write msg,
        CloseData, Quit, ClientClose])"
  by (simp add: sendWithClient_def accepting_peer_def andThen_def wrap_def
      split: option.splits)

text \<open>A server that accepts the message and then fails \<open>Quit\<close>.\<close>

theorem sendWithClient_quit_failure_swallowed_witness:
  "quit_reply (accepting_peer\<lparr>quit_reply := Some (Plain ''connection reset'')\<rparr>) \<noteq> None
   \<and> fst (sendWithClient Internal_go
        (accepting_peer\<lparr>quit_reply := Some (Plain ''connection reset'')\<rparr>)
        ''localhost'' ''smtp.example.com'' (Some plain_auth) ''from@example.com''
        [''to@example.com''] ''hi'' True) = None
   \<and> fst (sendWithClient Part_000
        (accepting_peer\<lparr>quit_reply := Some (Plain ''connection reset'')\<rparr>)
        ''localhost'' ''smtp.example.com'' (Some plain_auth) ''from@example.com''
        [''to@example.com''] ''hi'' True) = None"
proof -
  let ?p = "accepting_peer\<lparr>quit_reply := Some (Plain ''connection reset'')\<rparr>"
  have h: "write_reply ?p = None" "close_reply ?p = None"
    by (simp_all add: accepting_peer_def)
  have r: "CloseData \<in> set (snd (sendWithClient rv ?p ''localhost'' ''smtp.example.com''
      (Some plain_auth) ''from@example.com'' [''to@example.com''] ''hi'' True))" for rv
    by (simp add: sendWithClient_accepting)
  show ?thesis
    using sendWithClient_quit_failure_swallowed [OF h r [of Internal_go]]
      sendWithClient_quit_failure_swallowed [OF h r [of Part_000]]
    by simp
qed

text \<open>A server without STARTTLS, met over a plain connection, in both revisions.\<close>

theorem sendWithClient_tls_required_witness:
  "sendWithClient Internal_go (accepting_peer\<lparr>starttls_ext := False\<rparr>) ''localhost''
      ''smtp.example.com'' (Some plain_auth) ''from@example.com'' [''to@example.com''] ''hi''
      False =
     (Some (Plain ''smtp server does not support STARTTLS; TLS required''),
      [NewClient ''smtp.example.com'', Hello ''localhost'', Extension ''STARTTLS'',
       ClientClose])
   \<and> sendWithClient Part_000 (accepting_peer\<lparr>starttls_ext := False\<rparr>) ''localhost''
      ''smtp.example.com'' (Some plain_auth) ''from@example.com'' [''to@example.com''] ''hi''
      False =
     (Some (Wrapped ''email.sendWithClient'' None
        ''smtp server does not support STARTTLS; TLS required''),
      [NewClient ''smtp.example.com'', Hello ''localhost'', Extension ''STARTTLS'',
       ClientClose])"
proof -
  let ?p = "accepting_peer\<lparr>starttls_ext := False\<rparr>"
  have h: "\<not> starttls_ext ?p" "new_client ?p = None \<and> hello ?p 0 = None"
    by (simp_all add: accepting_peer_def)
  show ?thesis
    using sendWithClient_tls_required [OF h(1), THEN conjunct1, THEN mp, OF h(2),
        of Internal_go]
      sendWithClient_tls_required [OF h(1), THEN conjunct1, THEN mp, OF h(2), of Part_000]
    by (simp add: tls_required_def op_sendWithClient_def)
qed


lemma tryImplicitTLS_ok:
  "fst (tryImplicitTLS rv net timeout host addr auth from to msg) = None \<longleftrightarrow>
   tls_dial net = None \<and>
   fst (sendWithClient rv (tls_peer net) (local_hostname net) host auth from to msg True) = None"
  by (simp add: tryImplicitTLS_def Let_def split: option.splits)

lemma tryImplicitTLS_dials:
  "filter is_dial (snd (tryImplicitTLS rv net timeout host addr auth from to msg)) =
     [DialTLS timeout addr host]"
  by (simp add: tryImplicitTLS_def Let_def filter_map comp_def split: option.splits)

lemma tryStartTLS_dials:
  "filter is_dial (snd (tryStartTLS rv net timeout host addr auth from to msg)) =
     [DialTCP timeout addr]"
  by (simp add: tryStartTLS_def Let_def filter_map comp_def split: option.splits)

lemma tryImplicitTLS_no_plain_dial:
  "DialTCP timeout addr \<notin> set (snd (tryImplicitTLS rv net timeout host addr auth from to msg))"
  using tryImplicitTLS_events [of "DialTCP timeout addr" rv net timeout host addr auth "from"
      to msg]
  by auto

lemma tryStartTLS_plain_dial:
  "DialTCP timeout addr \<in> set (snd (tryStartTLS rv net timeout host addr auth from to msg))"
  by (simp add: tryStartTLS_def Let_def split: option.splits)

lemma sendMailWithTLS_split:
  assumes "SplitHostPort addr = Inr (host, port)"
  shows "sendMailWithTLS rv net timeout addr auth from to msg =
     (if fst (tryImplicitTLS rv net timeout host addr auth from to msg) = None then
        (None, snd (tryImplicitTLS rv net timeout host addr auth from to msg))
      else
        (fst (tryStartTLS rv net timeout host addr auth from to msg),
         snd (tryImplicitTLS rv net timeout host addr auth from to msg) @
         snd (tryStartTLS rv net timeout host addr auth from to msg)))"
  using assms by (simp add: sendMailWithTLS_def Let_def)

lemma sendMailWithTLS_fallback_taken:
  assumes "SplitHostPort addr = Inr (host, port)"
    and "fst (tryImplicitTLS rv net timeout host addr auth from to msg) \<noteq> None"
  shows "fst (sendMailWithTLS rv net timeout addr auth from to msg) =
       fst (tryStartTLS rv net timeout host addr auth from to msg)"
    and "filter is_dial (snd (sendMailWithTLS rv net timeout addr auth from to msg)) =
       [DialTLS timeout addr host, DialTCP timeout addr]"
    and "DialTCP timeout addr \<in> set (snd (sendMailWithTLS rv net timeout addr auth from to msg))"
  using assms(2)
  by (auto simp: sendMailWithTLS_split [OF assms(1)] tryImplicitTLS_dials
      tryStartTLS_dials tryStartTLS_plain_dial)

lemma sendMailWithTLS_no_fallback:
  assumes "SplitHostPort addr = Inr (host, port)"
    and "fst (tryImplicitTLS rv net timeout host addr auth from to msg) = None"
  shows "fst (sendMailWithTLS rv net timeout addr auth from to msg) = None"
    and "filter is_dial (snd (sendMailWithTLS rv net timeout addr auth from to msg)) =
       [DialTLS timeout addr host]"
    and "DialTCP timeout addr \<notin> set (snd (sendMailWithTLS rv net timeout addr auth from to msg))"
  using assms(2)
  by (simp_all add: sendMailWithTLS_split [OF assms(1)] tryImplicitTLS_dials
      tryImplicitTLS_no_plain_dial)

text \<open>
  C2 (amended). For an address that splits into host and port, the plain connection is
  opened exactly when the implicit-TLS attempt returns an error, be it the dial (connect
  or handshake) or the protocol session over the TLS connection. The result of the
  fallback is then the result of the attempt, and no third connection is opened. When
  the implicit-TLS attempt succeeds, the TLS connection is the only one.
\<close>

theorem sendMailWithTLS_fallback_on_any_failure:
  assumes "SplitHostPort addr = Inr (host, port)"
  shows
    "(DialTCP timeout addr \<in> set (snd (sendMailWithTLS rv net timeout addr auth from to msg))
        \<longleftrightarrow>
      tls_dial net \<noteq> None \<or>
      fst (sendWithClient rv (tls_peer net) (local_hostname net) host auth from to msg True)
        \<noteq> None)
     \<and> (tls_dial net \<noteq> None \<or>
        fst (sendWithClient rv (tls_peer net) (local_hostname net) host auth from to msg True)
          \<noteq> None \<longrightarrow>
        fst (sendMailWithTLS rv net timeout addr auth from to msg) =
          fst (tryStartTLS rv net timeout host addr auth from to msg) \<and>
        filter is_dial (snd (sendMailWithTLS rv net timeout addr auth from to msg)) =
          [DialTLS timeout addr host, DialTCP timeout addr])
     \<and> (tls_dial net = None \<and>
        fst (sendWithClient rv (tls_peer net) (local_hostname net) host auth from to msg True)
          = None \<longrightarrow>
        fst (sendMailWithTLS rv net timeout addr auth from to msg) = None \<and>
        filter is_dial (snd (sendMailWithTLS rv net timeout addr auth from to msg)) =
          [DialTLS timeout addr host])"
proof (cases "fst (tryImplicitTLS rv net timeout host addr auth from to msg) = None")
  case True
  from sendMailWithTLS_no_fallback [OF assms True] True show ?thesis
    by (simp add: tryImplicitTLS_ok)
next
  case False
  from sendMailWithTLS_fallback_taken [OF assms False] False show ?thesis
    by (simp add: tryImplicitTLS_ok)
qed

lemma split_example: "SplitHostPort ''smtp.example.com:465'' = Inr (''smtp.example.com'', ''465'')"
  by (simp add: SplitHostPort_def LastIndexByte_def)

lemma sendWithClient_auth_rejected:
  "fst (sendWithClient rv (tls_peer net_auth_rejected) (local_hostname net_auth_rejected)
     ''smtp.example.com'' (Some plain_auth) ''from@example.com'' [''to@example.com''] ''hi''
     True) \<noteq> None"
  by (simp add: sendWithClient_def net_auth_rejected_def accepting_peer_def andThen_def
      wrap_def split: revision.splits)

text \<open>A relay that refuses the TLS connection: the fallback is taken.\<close>

theorem sendMailWithTLS_fallback_on_any_failure_witness:
  "DialTCP (10 * Second) ''smtp.example.com:465'' \<in>
     set (snd (sendMailWithTLS Internal_go net_tls_refused (10 * Second)
       ''smtp.example.com:465'' (Some plain_auth) ''from@example.com'' [''to@example.com'']
       ''hi''))
   \<and> filter is_dial (snd (sendMailWithTLS Part_000 net_tls_refused (10 * Second)
       ''smtp.example.com:465'' (Some plain_auth) ''from@example.com'' [''to@example.com'']
       ''hi'')) =
     [DialTLS (10 * Second) ''smtp.example.com:465'' ''smtp.example.com'',
      DialTCP (10 * Second) ''smtp.example.com:465'']"
proof -
  have "tls_dial net_tls_refused \<noteq> None"
    by (simp add: net_tls_refused_def)
  then show ?thesis
    using sendMailWithTLS_fallback_on_any_failure [OF split_example,
        of "10 * Second" Internal_go net_tls_refused]
      sendMailWithTLS_fallback_on_any_failure [OF split_example,
        of "10 * Second" Part_000 net_tls_refused]
    by simp
qed

text \<open>
  The claim as first stated fails: the TLS connection is established, the relay rejects
  the credentials over it, and a second, plain connection is opened all the same.
\<close>

theorem sendMailWithTLS_session_failure_counterexample:
  "tls_dial net_auth_rejected = None
   \<and> DialTCP (10 * Second) ''smtp.example.com:465'' \<in>
     set (snd (sendMailWithTLS Internal_go net_auth_rejected (10 * Second)
       ''smtp.example.com:465'' (Some plain_auth) ''from@example.com'' [''to@example.com'']
       ''hi''))
   \<and> DialTCP (10 * Second) ''smtp.example.com:465'' \<in>
     set (snd (sendMailWithTLS Part_000 net_auth_rejected (10 * Second)
       ''smtp.example.com:465'' (Some plain_auth) ''from@example.com'' [''to@example.com'']
       ''hi''))"
proof -
  have "fst (tryImplicitTLS rv net_auth_rejected (10 * Second) ''smtp.example.com''
      ''smtp.example.com:465'' (Some plain_auth) ''from@example.com'' [''to@example.com'']
      ''hi'') \<noteq> None" for rv
    using sendWithClient_auth_rejected [of rv] by (simp add: tryImplicitTLS_ok)
  from sendMailWithTLS_fallback_taken(3) [OF split_example this]
  show ?thesis
    by (simp add: net_auth_rejected_def)
qed

section \<open>Verification: the composer\<close>

lemma canonical_keys [simp]:
  "CanonicalMIMEHeaderKey ''From'' = ''From''"
  "CanonicalMIMEHeaderKey ''To'' = ''To''"
  "CanonicalMIMEHeaderKey ''Subject'' = ''Subject''"
  "CanonicalMIMEHeaderKey ''Date'' = ''Date''"
  "CanonicalMIMEHeaderKey ''Message-ID'' = ''Message-Id''"
  "CanonicalMIMEHeaderKey ''MIME-Version'' = ''Mime-Version''"
  "CanonicalMIMEHeaderKey ''Content-Type'' = ''Content-Type''"
  by code_simp+

lemma dom_composed_header:
  "dom (composed_header env from tos subject) = set header_keys"
  by (auto simp: composed_header_def Set_def header_keys_def)

lemma header_line_composed:
  assumes "k \<in> set header_keys"
  shows "header_line (composed_header env from tos subject) k =
     k @ '': '' @ header_value env from tos subject k @ CRLF"
  using assms
  by (auto simp: header_keys_def header_line_def composed_header_def Set_def
      header_value_def)

lemma header_lines_composed:
  assumes "set ks \<subseteq> set header_keys"
  shows "concat (map (header_line (composed_header env from tos subject)) ks) =
     concat (map (\<lambda>k. k @ '': '' @ header_value env from tos subject k @ CRLF) ks)"
  using assms by (induction ks) (simp_all add: header_line_composed)

lemma Build_document:
  assumes "BuildEmailWithADIFAttachment env s from subject msg to qsos = Returns (Inr doc)"
  shows "\<exists>adif body.
     ComposeToAdifString env qsos = Inr adif \<and>
     multipart_body env (resolved s Body msg) (now_stamp env @ ''-export.adi'')
       (base64_encode env adif) = Inr body \<and>
     MsgFrom doc = resolved s From from \<and>
     Msg doc =
       concat (map (header_line
         (composed_header env (MsgFrom doc) (MsgTo doc) (resolved s Subject subject)))
         (range_order env)) @ CRLF @ body"
  using assms
  by (auto simp: BuildEmailWithADIFAttachment_def and_then_def config_field_def
      resolved_def Let_def
      split: if_splits option.splits sum.splits outcome.splits)


text \<open>
  C3 (amended). When the composer produces a document, its text is one line
  \<open>Key: value\<close> ended by CRLF for every key of the header map, each key once, in the order
  in which the iteration over the map visits the keys, then an empty line, then the
  multipart body. The order is the iteration's, which Go leaves unspecified: it need not
  be the insertion order, and two calls with the same inputs may differ in it.
\<close>

theorem Build_headers_in_iteration_order:
  assumes "BuildEmailWithADIFAttachment env s from subject msg to qsos = Returns (Inr doc)"
    and "iteration_order (range_order env)"
  shows "\<exists>adif body.
     ComposeToAdifString env qsos = Inr adif \<and>
     multipart_body env (resolved s Body msg) (now_stamp env @ ''-export.adi'')
       (base64_encode env adif) = Inr body \<and>
     Msg doc =
       concat (map (\<lambda>k. k @ '': '' @
           header_value env (MsgFrom doc) (MsgTo doc) (resolved s Subject subject) k @ CRLF)
         (range_order env)) @ CRLF @ body"
proof -
  have "set (range_order env) \<subseteq> set header_keys"
    using assms(2) by (simp add: iteration_order_def)
  from header_lines_composed [OF this] Build_document [OF assms(1)]
  show ?thesis by auto
qed

lemma Build_examples:
  "document (BuildEmailWithADIFAttachment env_insertion st_from_empty [] [] ''hello world''
      [] [()]) \<noteq> None"
  "document (BuildEmailWithADIFAttachment env_reversed st_from_empty [] [] ''hello world''
      [] [()]) \<noteq> None"
  by code_simp+

lemma iteration_order_examples:
  "iteration_order (range_order env_insertion)"
  "iteration_order (range_order env_reversed)"
  by (auto simp: iteration_order_def env_insertion_def env_reversed_def header_keys_def)

lemma document_Some: "document r = Some doc \<longleftrightarrow> r = Returns (Inr doc)"
  by (cases r rule: document.cases) auto

text \<open>A call whose iteration visits the keys in the reverse of the insertion order.\<close>

theorem Build_headers_in_iteration_order_witness:
  "\<exists>doc body.
     document (BuildEmailWithADIFAttachment env_reversed st_from_empty [] [] ''hello world''
       [] [()]) = Some doc \<and>
     Msg doc =
       concat (map (\<lambda>k. k @ '': '' @
           header_value env_reversed (MsgFrom doc) (MsgTo doc)
             (resolved st_from_empty Subject []) k @ CRLF)
         (rev header_keys)) @ CRLF @ body"
proof -
  obtain doc where
    d: "BuildEmailWithADIFAttachment env_reversed st_from_empty [] [] ''hello world'' [] [()]
      = Returns (Inr doc)"
    using Build_examples(2) by (auto simp: document_Some)
  have ro: "range_order env_reversed = rev header_keys"
    by (simp add: env_reversed_def)
  from Build_headers_in_iteration_order [OF d iteration_order_examples(2)]
  obtain body where "Msg doc =
       concat (map (\<lambda>k. k @ '': '' @
           header_value env_reversed (MsgFrom doc) (MsgTo doc)
             (resolved st_from_empty Subject []) k @ CRLF)
         (range_order env_reversed)) @ CRLF @ body"
    by blast
  then show ?thesis
    unfolding ro by (intro exI [of _ doc] exI [of _ body]) (simp add: d)
qed

text \<open>
  The claim as first stated fails: two calls with the same arguments, configuration,
  clock, identifier and boundary, whose iterations visit the keys in different orders,
  produce documents that begin with different header lines.
\<close>

theorem Build_header_order_counterexample:
  "iteration_order (range_order env_insertion) \<and> iteration_order (range_order env_reversed)
   \<and> map_option (take 6 \<circ> Msg)
       (document (BuildEmailWithADIFAttachment env_insertion st_from_empty [] []
          ''hello world'' [] [()])) = Some ''From: ''
   \<and> map_option (take 14 \<circ> Msg)
       (document (BuildEmailWithADIFAttachment env_reversed st_from_empty [] []
          ''hello world'' [] [()])) = Some ''Content-Type: ''"
proof -
  have "map_option (take 6 \<circ> Msg)
       (document (BuildEmailWithADIFAttachment env_insertion st_from_empty [] []
          ''hello world'' [] [()])) = Some ''From: ''"
    by code_simp
  moreover have "map_option (take 14 \<circ> Msg)
       (document (BuildEmailWithADIFAttachment env_reversed st_from_empty [] []
          ''hello world'' [] [()])) = Some ''Content-Type: ''"
    by code_simp
  ultimately show ?thesis
    using iteration_order_examples by simp
qed

lemma Build_error_independent_of_From:
  assumes "Config s = Some cfg" "TrimSpace from = []"
  shows "BuildEmailWithADIFAttachment env s from subject msg to qsos = Returns (Inl err) \<longleftrightarrow>
     BuildEmailWithADIFAttachment env (s\<lparr>Config := Some (cfg\<lparr>From := f\<rparr>)\<rparr>) from subject msg
       to qsos = Returns (Inl err)"
  using assms
  by (auto simp: BuildEmailWithADIFAttachment_def and_then_def config_field_def Let_def
      split: if_splits option.splits sum.splits outcome.splits)

lemma Build_never_panics:
  assumes "Config s = Some cfg"
  shows "BuildEmailWithADIFAttachment env s from subject msg to qsos \<noteq> Panics"
  using assms
  by (auto simp: BuildEmailWithADIFAttachment_def and_then_def config_field_def Let_def
      split: if_splits option.splits sum.splits outcome.splits)

text \<open>
  C7 (amended). When the explicit sender is blank, the composer takes the sender of the
  configuration as it stands, without a check: a document it produces carries that
  sender, empty or not, and whether it returns an error does not depend on the sender of
  the configuration.
\<close>

theorem Build_from_not_checked:
  assumes "Config s = Some cfg" and "TrimSpace from = []"
  shows "(BuildEmailWithADIFAttachment env s from subject msg to qsos = Returns (Inr doc) \<longrightarrow>
        MsgFrom doc = From cfg)
     \<and> (BuildEmailWithADIFAttachment env s from subject msg to qsos = Returns (Inl err) \<longleftrightarrow>
        BuildEmailWithADIFAttachment env (s\<lparr>Config := Some (cfg\<lparr>From := f\<rparr>)\<rparr>) from subject
          msg to qsos = Returns (Inl err))"
proof
  show "BuildEmailWithADIFAttachment env s from subject msg to qsos = Returns (Inr doc) \<longrightarrow>
      MsgFrom doc = From cfg"
    using Build_document [of env s "from" subject msg to qsos doc] assms
    by (auto simp: resolved_def)
  show "BuildEmailWithADIFAttachment env s from subject msg to qsos = Returns (Inl err) \<longleftrightarrow>
      BuildEmailWithADIFAttachment env (s\<lparr>Config := Some (cfg\<lparr>From := f\<rparr>)\<rparr>) from subject
        msg to qsos = Returns (Inl err)"
    using assms by (rule Build_error_independent_of_From)
qed

lemma st_from_empty_Config:
  "Config st_from_empty =
     Some (cfg_ipv6\<lparr>From := [], To := ''alice@example.com'', Subject := ''Subject'',
       Body := ''Body''\<rparr>)"
  by (simp add: st_from_empty_def)

text \<open>A blank explicit sender with an empty sender in the configuration.\<close>

theorem Build_from_not_checked_witness:
  "\<exists>doc.
     BuildEmailWithADIFAttachment env_insertion st_from_empty [] [] ''hello world'' [] [()] =
       Returns (Inr doc) \<and> MsgFrom doc = []"
proof -
  obtain doc where
    d: "BuildEmailWithADIFAttachment env_insertion st_from_empty [] [] ''hello world'' [] [()]
      = Returns (Inr doc)"
    using Build_examples(1) by (auto simp: document_Some)
  have "TrimSpace [] = []"
    by (simp add: TrimSpace_def TrimLeft_def TrimRight_def)
  from Build_from_not_checked [OF st_from_empty_Config this, THEN conjunct1, THEN mp, OF d]
  show ?thesis
    by (simp add: d)
qed

text \<open>
  The claim as first stated fails: with a blank explicit sender and an empty sender in
  the configuration the composer returns a document, whose sender is empty, and no error.
\<close>

theorem Build_empty_from_counterexample:
  "TrimSpace [] = []
   \<and> map_option From (Config st_from_empty) = Some []
   \<and> map_option MsgFrom
       (document (BuildEmailWithADIFAttachment env_insertion st_from_empty [] []
          ''hello world'' [] [()])) = Some []"
  by code_simp

end
